theory Spec2Isabelle
  imports Main "HOL-Library.Sublist" "HOL-Library.AList"
begin

section \<open>Data model of the canvas layout\<close>

text \<open>
  The command \<open>spo page clientsidewebpart add\<close> (class
  \<open>SpoPageClientSideWebPartAddCommand\<close>) reads the page's \<open>CanvasContent1\<close>, a JSON
  array of controls, inserts a web part control and posts the array back.

  JSON values carried through the layout unchanged are kept as a datatype. JavaScript
  numbers are modelled as \<open>int\<close> (the layout indices are integers), a property that is
  absent or \<open>undefined\<close> as \<open>None\<close>.
\<close>

datatype json =
    JNull
  | JBool bool
  | JNum int
  | JStr string
  | JArr "json list"
  | JObj "(string \<times> json) list"

text \<open>
  Modelled from the spec: the interfaces \<open>Control\<close> and \<open>ControlPosition\<close> live in
  \<open>./canvasContent\<close>, which is not among the sources. Section 3 of the specification gives
  a position as the five integers below; \<open>controlType\<close> may be absent; every other
  property of a control is payload that the command never inspects (\<open>otherProps\<close>).
\<close>

record position =
  controlIndex :: int
  sectionIndex :: int
  zoneIndex :: int
  sectionFactor :: int
  layoutIndex :: int

record control =
  controlType :: "int option"
  displayMode :: "int option"
  ctlId :: "json option"
  position :: "position option"
  webPartId :: "string option"
  emphasis :: "json option"
  webPartData :: "json option"
  otherProps :: "(string \<times> json) list"

text \<open>The object that \<open>getWebPart\<close> resolves with: \<open>{ id, webPartData, webPartId }\<close>;
  \<open>wpData\<close> is its \<open>webPartData\<close>.\<close>

record webPart =
  wpId :: "json option"
  wpData :: json
  wpWebPartId :: string

text \<open>
  What a rejected promise of the command carries: the two rejections of the editor
  (\<open>Invalid section '\<dots>'\<close> with the resolved section, \<open>Invalid column '\<dots>'\<close>
  with \<open>args.options.column\<close> as given), an exception thrown inside a \<open>then\<close>
  callback (the \<open>SyntaxError\<close> of \<open>JSON.parse\<close> with its text, the \<open>TypeError\<close> of reading
  the property names of \<open>null\<close> or of writing to \<open>undefined\<close>, or what a property write
  throws, by its text), or the reason of a failed request.
\<close>

datatype error =
    InvalidSection int
  | InvalidColumn "int option"
  | SyntaxError string
  | TypeError
  | Thrown string
  | RequestFailed string

text \<open>The options of the command (\<open>interface Options\<close>); an option that was not given
  is \<open>None\<close>. The fields \<open>optSection\<close>, \<open>optColumn\<close>, \<open>optOrder\<close>, \<open>optWebPartId\<close> and
  \<open>optWebPartData\<close> are the options \<open>section\<close>, \<open>column\<close>, \<open>order\<close>, \<open>webPartId\<close> and
  \<open>webPartData\<close>.\<close>

record options =
  pageName :: string
  webUrl :: string
  standardWebPart :: "string option"
  optWebPartData :: "string option"
  optWebPartId :: "string option"
  webPartProperties :: "string option"
  optSection :: "int option"
  optColumn :: "int option"
  optOrder :: "int option"

text \<open>
  Functions the command calls that are not part of these sources: the JavaScript built-ins
  \<open>JSON.parse\<close> (\<open>Inl\<close> carries the text of the exception thrown),
  \<open>encodeURIComponent\<close> and the property write \<open>t[v] = x\<close> on a value \<open>t\<close> other than
  \<open>undefined\<close> (\<open>Inr\<close> is \<open>t\<close> after the write, \<open>Inl\<close> the text of the exception
  thrown), the parser of a \<open>CanvasContent1\<close> string into controls, and
  the validators \<open>Utils.isValidGuid\<close>,
  \<open>StandardWebPartUtils.isValidStandardWebPartType\<close> and
  \<open>SpoCommand.isValidSharePointUrl\<close> (\<open>None\<close> for \<open>true\<close>, otherwise its message). They
  are parameters of the model.
\<close>

record externals =
  JSON_parse :: "string \<Rightarrow> string + json"
  parseCanvas :: "string \<Rightarrow> string + control list"
  encodeURIComponent :: "string \<Rightarrow> string"
  setProperty :: "json \<Rightarrow> string \<Rightarrow> json \<Rightarrow> string + json"
  isValidGuid :: "string \<Rightarrow> bool"
  isValidStandardWebPartType :: "string \<Rightarrow> bool"
  isValidSharePointUrl :: "string \<Rightarrow> string option"

text \<open>
  What the collaborators answer during one invocation: the page request
  (\<open>CanvasContent1\<close> and \<open>IsPageCheckedOutToCurrentUser\<close>), the checkout request, the
  web part that \<open>getWebPart\<close> resolves with, and the save request. \<open>Inl\<close> is the reason
  of a rejection.
\<close>

record responses =
  pageResponse :: "string + (string option \<times> bool)"
  checkoutResponse :: "string + unit"
  webPartResponse :: "string + webPart"
  saveResponse :: "string + unit"

text \<open>A request the command issues; a \<open>savepage\<close> request carries the layout it
  sends as \<open>CanvasContent1\<close>.\<close>

datatype request =
    HttpGet string
  | HttpPost string "control list option"

text \<open>
  Modelled from the spec: the page API is a collaborator outside these sources. Section 6
  of the specification gives \<open>checkoutPage\<close> as the request that checks the page out,
  \<open>persistLayout\<close> as the full replacement of the stored layout, and the two \<open>GET\<close>
  requests as reads. The stored state of the page is its layout and whether it is checked
  out to the current user; \<open>pageAfter\<close> is that state after the requests of an invocation.
  The command posts without a layout only to \<open>checkoutpage\<close> and with a layout only to
  \<open>savepage\<close>.
\<close>

record pageState =
  storedLayout :: "control list"
  pageCheckedOut :: bool

fun pageAfter :: "request list \<Rightarrow> pageState \<Rightarrow> pageState" where
  "pageAfter [] s = s"
| "pageAfter (HttpGet u # rs) s = pageAfter rs s"
| "pageAfter (HttpPost u None # rs) s = pageAfter rs (s\<lparr> pageCheckedOut := True \<rparr>)"
| "pageAfter (HttpPost u (Some L) # rs) s = pageAfter rs (s\<lparr> storedLayout := L \<rparr>)"

section \<open>JavaScript array primitives used by the command\<close>

text \<open>Truthiness of an optional number: \<open>undefined\<close> and \<open>0\<close> are falsy.\<close>

definition truthy :: "int option \<Rightarrow> bool" where
  "truthy v = (case v of None \<Rightarrow> False | Some n \<Rightarrow> n \<noteq> 0)"

text \<open>\<open>a || d\<close> for an optional number \<open>a\<close>.\<close>

definition orElse :: "int option \<Rightarrow> int \<Rightarrow> int" where
  "orElse v d = (case v of None \<Rightarrow> d | Some n \<Rightarrow> if n \<noteq> 0 then n else d)"

text \<open>\<open>Array.prototype.findIndex\<close>: the first index whose element satisfies the
  predicate, \<open>-1\<close> when there is none.\<close>

fun findIndexFrom :: "('a \<Rightarrow> bool) \<Rightarrow> 'a list \<Rightarrow> int \<Rightarrow> int" where
  "findIndexFrom P [] i = -1"
| "findIndexFrom P (x # xs) i = (if P x then i else findIndexFrom P xs (i + 1))"

definition findIndex :: "('a \<Rightarrow> bool) \<Rightarrow> 'a list \<Rightarrow> int" where
  "findIndex P xs = findIndexFrom P xs 0"

text \<open>\<open>Array.prototype.indexOf\<close> with strict equality.\<close>

definition indexOf :: "'a list \<Rightarrow> 'a \<Rightarrow> int" where
  "indexOf xs v = findIndex (\<lambda>x. x = v) xs"

text \<open>\<open>xs[i]\<close>: \<open>undefined\<close> outside the array.\<close>

definition jsNth :: "'a list \<Rightarrow> int \<Rightarrow> 'a option" where
  "jsNth xs i = (if 0 \<le> i \<and> i < int (length xs) then Some (xs ! nat i) else None)"

text \<open>\<open>xs.pop()\<close> read for its value only: the last element, \<open>undefined\<close> on an empty
  array.\<close>

definition popValue :: "'a list \<Rightarrow> 'a option" where
  "popValue xs = (if xs = [] then None else Some (last xs))"

text \<open>\<open>xs.splice(start, 0, x)\<close>: a negative start counts from the end, and the start is
  clamped to the array.\<close>

definition spliceStart :: "int \<Rightarrow> nat \<Rightarrow> nat" where
  "spliceStart start len =
     (if start < 0 then nat (max (int len + start) 0) else min (nat start) len)"

definition spliceInsert :: "int \<Rightarrow> 'a \<Rightarrow> 'a list \<Rightarrow> 'a list" where
  "spliceInsert start x xs =
     (let k = spliceStart start (length xs) in take k xs @ [x] @ drop k xs)"

text \<open>\<open>xs.splice(start, 1, x)\<close>: replaces the element at the (clamped) start, or appends
  when the start is the length.\<close>

definition spliceReplace :: "int \<Rightarrow> 'a \<Rightarrow> 'a list \<Rightarrow> 'a list" where
  "spliceReplace start x xs =
     (let k = spliceStart start (length xs) in take k xs @ [x] @ drop (Suc k) xs)"

text \<open>\<open>xs.filter((value, index, array) => array.indexOf(value) === index)\<close>: keeps the
  first occurrence of every value.\<close>

definition firstOccurrences :: "'a list \<Rightarrow> 'a list" where
  "firstOccurrences xs =
     map fst (filter (\<lambda>(v, i). indexOf xs v = int i) (zip xs [0..<length xs]))"

section \<open>The layout editor inside \<open>commandAction\<close>\<close>

text \<open>The synthetic one-column section added to a page that has no section yet.\<close>

definition defaultSection :: control where
  "defaultSection =
     \<lparr> controlType = None, displayMode = Some 2, ctlId = None,
       position = Some \<lparr> controlIndex = 1, sectionIndex = 1, zoneIndex = 1,
                         sectionFactor = 12, layoutIndex = 1 \<rparr>,
       webPartId = None, emphasis = Some (JObj []), webPartData = None,
       otherProps = [] \<rparr>"

text \<open>\<open>if (canvasContent.length === 1) canvasContent.unshift(defaultSection)\<close>.\<close>

definition ensureDefaultSection :: "control list \<Rightarrow> control list" where
  "ensureDefaultSection canvasContent =
     (if length canvasContent = 1 then defaultSection # canvasContent else canvasContent)"

text \<open>The zone indices of the controls that have a position, first occurrences only,
  sorted by \<open>(a, b) => a - b\<close>.\<close>

definition positions :: "control list \<Rightarrow> position list" where
  "positions canvasContent = List.map_filter position canvasContent"

definition zoneIndices :: "control list \<Rightarrow> int list" where
  "zoneIndices canvasContent =
     sort (firstOccurrences (map zoneIndex (positions canvasContent)))"

text \<open>Lines 221 to 227: the section defaults to the last one; a section beyond the last
  is rejected; the result is \<open>zoneIndices[section - 1]\<close>, which is \<open>undefined\<close> when
  that index is outside the array.\<close>

definition resolveSection :: "control list \<Rightarrow> int option \<Rightarrow> error + int option" where
  "resolveSection canvasContent sectionOpt =
     (let zs = zoneIndices canvasContent;
          section = orElse sectionOpt (int (length zs))
      in if section > int (length zs) then Inl (InvalidSection section)
         else Inr (jsNth zs (section - 1)))"

text \<open>The test \<open>c.position && c.position.zoneIndex === zoneIndex &&
  c.position.sectionIndex === column\<close>.\<close>

definition inColumn :: "int option \<Rightarrow> int \<Rightarrow> control \<Rightarrow> bool" where
  "inColumn zone column c =
     (case position c of
        None \<Rightarrow> False
      | Some p \<Rightarrow> Some (zoneIndex p) = zone \<and> sectionIndex p = column)"

text \<open>Lines 229 to 238: the column defaults to 1; the anchor is the first control of the
  zone and column; the error message quotes \<open>args.options.column\<close>.\<close>

definition resolveColumn :: "control list \<Rightarrow> int option \<Rightarrow> int option \<Rightarrow> error + nat" where
  "resolveColumn canvasContent zone columnOpt =
     (let column = orElse columnOpt 1;
          i = findIndex (inColumn zone column) canvasContent
      in if i = -1 then Inl (InvalidColumn columnOpt) else Inr (nat i))"

text \<open>Lines 245 to 252: the new control. \<open>extend\<close> copies the own properties of the web
  part (\<open>id\<close>, \<open>webPartData\<close>, \<open>webPartId\<close>) over the literal; the position is a copy
  of the anchor's.\<close>

definition webPartControl :: "control \<Rightarrow> webPart \<Rightarrow> control" where
  "webPartControl anchor wp =
     \<lparr> controlType = Some 3, displayMode = Some 2, ctlId = wpId wp,
       position = position anchor,
       webPartId = Some (wpWebPartId wp), emphasis = Some (JObj []),
       webPartData = Some (wpData wp), otherProps = [] \<rparr>"

text \<open>\<open>c.position.controlIndex = i\<close>.\<close>

definition setControlIndex :: "int \<Rightarrow> control \<Rightarrow> control" where
  "setControlIndex i c =
     c\<lparr> position := map_option (\<lambda>p. p\<lparr> controlIndex := i \<rparr>) (position c) \<rparr>"

text \<open>Lines 297 to 305: the controls of the column get the indices \<open>i, i + 1, \<dots>\<close> in
  the order of the array.\<close>

fun renumber :: "int option \<Rightarrow> int \<Rightarrow> int \<Rightarrow> control list \<Rightarrow> control list" where
  "renumber zone column i [] = []"
| "renumber zone column i (c # cs) =
     (if inColumn zone column c
      then setControlIndex i c # renumber zone column (i + 1) cs
      else c # renumber zone column i cs)"

text \<open>The sorted \<open>controlIndex\<close> values of the column (lines 266 to 271).\<close>

definition controlIndices :: "control list \<Rightarrow> int option \<Rightarrow> int \<Rightarrow> int list" where
  "controlIndices canvasContent zone column =
     sort (map controlIndex (positions (filter (inColumn zone column) canvasContent)))"

text \<open>The test of the two inner \<open>findIndex\<close> calls: a control of the column whose
  \<open>controlIndex\<close> is the (possibly \<open>undefined\<close>) value looked for.\<close>

definition hasControlIndex :: "int option \<Rightarrow> int \<Rightarrow> int option \<Rightarrow> control \<Rightarrow> bool" where
  "hasControlIndex zone column ci c =
     (case position c of
        None \<Rightarrow> False
      | Some p \<Rightarrow> Some (zoneIndex p) = zone \<and> sectionIndex p = column
                  \<and> Some (controlIndex p) = ci)"

text \<open>Lines 254 to 306. \<open>a\<close> is the array index of the anchor, \<open>wpc\<close> the new
  control.\<close>

definition insertControl ::
  "control list \<Rightarrow> nat \<Rightarrow> int option \<Rightarrow> int \<Rightarrow> int option \<Rightarrow> control \<Rightarrow> control list" where
  "insertControl canvasContent a zone column orderOpt wpc =
     (if \<not> truthy (controlType (canvasContent ! a)) then
        spliceReplace (int a) (setControlIndex 1 wpc) canvasContent
      else
        let cis = controlIndices canvasContent zone column;
            inserted =
              (if \<not> truthy orderOpt \<or> the orderOpt > int (length cis) then
                 let ci = popValue cis;
                     webPartIndex = findIndex (hasControlIndex zone column ci) canvasContent
                 in spliceInsert (webPartIndex + 1) wpc canvasContent
               else
                 let ci = jsNth cis (the orderOpt - 1);
                     webPartIndex = findIndex (hasControlIndex zone column ci) canvasContent
                 in spliceInsert webPartIndex wpc canvasContent)
        in renumber zone column 1 inserted)"

text \<open>Lines 194 to 306 as one function of the fetched layout, the three placement
  options and the resolved web part.\<close>

definition placeWebPart ::
  "control list \<Rightarrow> int option \<Rightarrow> int option \<Rightarrow> int option \<Rightarrow> webPart
     \<Rightarrow> error + control list" where
  "placeWebPart canvasContent0 sectionOpt columnOpt orderOpt wp =
     (let canvasContent = ensureDefaultSection canvasContent0 in
      case resolveSection canvasContent sectionOpt of
        Inl e \<Rightarrow> Inl e
      | Inr zone \<Rightarrow>
         (case resolveColumn canvasContent zone columnOpt of
            Inl e \<Rightarrow> Inl e
          | Inr a \<Rightarrow>
              Inr (insertControl canvasContent a zone (orElse columnOpt 1) orderOpt
                     (webPartControl (canvasContent ! a) wp))))"

section \<open>The command around the editor\<close>

text \<open>Truthiness of an optional string: \<open>undefined\<close> and the empty string are
  falsy.\<close>

definition truthyStr :: "string option \<Rightarrow> bool" where
  "truthyStr v = (case v of None \<Rightarrow> False | Some s \<Rightarrow> s \<noteq> [])"

text \<open>\<open>String.prototype.indexOf\<close>: the first index at which the needle occurs, \<open>-1\<close>
  when it does not occur.\<close>

fun strIndexOfFrom :: "string \<Rightarrow> string \<Rightarrow> int \<Rightarrow> int" where
  "strIndexOfFrom needle [] i = (if needle = [] then i else -1)"
| "strIndexOfFrom needle (c # cs) i =
     (if prefix needle (c # cs) then i else strIndexOfFrom needle cs (i + 1))"

definition strIndexOf :: "string \<Rightarrow> string \<Rightarrow> int" where
  "strIndexOf s needle = strIndexOfFrom needle s 0"

text \<open>Lines 141 to 144.\<close>

definition pageFullName :: "string \<Rightarrow> string" where
  "pageFullName name = (if strIndexOf name ''.aspx'' < 0 then name @ ''.aspx'' else name)"

text \<open>The URLs of the four requests.\<close>

definition pageApi :: "externals \<Rightarrow> string \<Rightarrow> string \<Rightarrow> string" where
  "pageApi ext url fullName =
     url @ ''/_api/sitepages/pages/GetByUrl('' @ [CHR 0x27] @ ''sitepages/''
       @ encodeURIComponent ext fullName @ [CHR 0x27] @ '')''"

definition pageUrl :: "externals \<Rightarrow> string \<Rightarrow> string \<Rightarrow> string" where
  "pageUrl ext url fullName =
     pageApi ext url fullName @ ''?$select=CanvasContent1,IsPageCheckedOutToCurrentUser''"

definition checkoutUrl :: "externals \<Rightarrow> string \<Rightarrow> string \<Rightarrow> string" where
  "checkoutUrl ext url fullName = pageApi ext url fullName @ ''/checkoutpage''"

definition savepageUrl :: "externals \<Rightarrow> string \<Rightarrow> string \<Rightarrow> string" where
  "savepageUrl ext url fullName = pageApi ext url fullName @ ''/savepage''"

definition webPartsUrl :: "string \<Rightarrow> string" where
  "webPartsUrl url = url @ ''/_api/web/getclientsidewebparts()''"

text \<open>The layout of a page whose \<open>CanvasContent1\<close> is empty (line 161).\<close>

definition defaultCanvasContent :: "control list" where
  "defaultCanvasContent =
     [\<lparr> controlType = Some 0, displayMode = None, ctlId = None, position = None,
        webPartId = None, emphasis = None, webPartData = None,
        otherProps = [(''pageSettingsSlice'',
          JObj [(''isDefaultDescription'', JBool True),
                (''isDefaultThumbnail'', JBool True)])] \<rparr>]"

subsection \<open>\<open>extend\<close> and \<open>setWebPartProperties\<close>\<close>

text \<open>Decimal rendering of an array index, as a property name.\<close>

fun showNat :: "nat \<Rightarrow> string" where
  "showNat n =
     (if n < 10 then [char_of (48 + n)] else showNat (n div 10) @ [char_of (48 + n mod 10)])"

text \<open>\<open>Object.getOwnPropertyNames(source)\<close> paired with \<open>source[v]\<close> for each name
  \<open>v\<close>. The call throws a \<open>TypeError\<close> on \<open>null\<close>; a boolean or a number has no
  own property; a string and an array have their indices and \<open>length\<close>.\<close>

definition ownProperties :: "json \<Rightarrow> (string \<times> json) list option" where
  "ownProperties source =
     (case source of
        JNull \<Rightarrow> None
      | JBool _ \<Rightarrow> Some []
      | JNum _ \<Rightarrow> Some []
      | JStr s \<Rightarrow>
          Some (zip (map showNat [0..<length s]) (map (\<lambda>c. JStr [c]) s)
                @ [(''length'', JNum (int (length s)))])
      | JArr xs \<Rightarrow>
          Some (zip (map showNat [0..<length xs]) xs @ [(''length'', JNum (int (length xs)))])
      | JObj kvs \<Rightarrow> Some kvs)"

text \<open>\<open>t.v\<close> read from a value that is not \<open>null\<close>: the property of an object,
  \<open>undefined\<close> when the object has none of that name. The two names read by the command,
  \<open>properties\<close> and \<open>instanceId\<close>, are \<open>undefined\<close> on every value that is not an
  object.\<close>

definition getProperty :: "json \<Rightarrow> string \<Rightarrow> json option" where
  "getProperty t k = (case t of JObj kvs \<Rightarrow> map_of kvs k | _ \<Rightarrow> None)"

text \<open>The object \<open>t\<close> with the value of its property \<open>k\<close> replaced: what \<open>t\<close> is after the
  value that \<open>t.k\<close> refers to has been changed in place.\<close>

definition withProperty :: "json \<Rightarrow> string \<Rightarrow> json \<Rightarrow> json" where
  "withProperty t k v =
     (case t of
        JObj kvs \<Rightarrow> JObj (map (\<lambda>(k', v'). if k' = k then (k', v) else (k', v')) kvs)
      | _ \<Rightarrow> t)"

text \<open>
  \<open>extend(target, source)\<close>, lines 430 to 436: every own property of the source is
  written into the target, in the order of the names, and the target is returned. The
  target is changed in place, so the result is the target as it is when the function
  leaves, together with the exception that made it leave, if any: reading the names of
  \<open>null\<close> throws, a write to \<open>undefined\<close> throws, another write throws when
  \<open>setProperty\<close> says so.
\<close>

fun extendLoop ::
  "externals \<Rightarrow> (string \<times> json) list \<Rightarrow> json option \<Rightarrow> json option \<times> error option" where
  "extendLoop ext [] t = (t, None)"
| "extendLoop ext ((k, v) # kvs) t =
     (case t of
        None \<Rightarrow> (None, Some TypeError)
      | Some tv \<Rightarrow>
          (case setProperty ext tv k v of
             Inl msg \<Rightarrow> (Some tv, Some (Thrown msg))
           | Inr tv' \<Rightarrow> extendLoop ext kvs (Some tv')))"

definition extend :: "externals \<Rightarrow> json option \<Rightarrow> json \<Rightarrow> json option \<times> error option" where
  "extend ext target source =
     (case ownProperties source of
        None \<Rightarrow> (target, Some TypeError)
      | Some kvs \<Rightarrow> extendLoop ext kvs target)"

text \<open>
  Lines 395 to 408, the block for \<open>webPartProperties\<close>. Whatever is thrown while the
  properties are parsed and merged is caught and dropped (\<open>catch { }\<close>); the value of
  \<open>webPartData.properties\<close> stays as the merge left it.
\<close>

definition mergeProperties :: "externals \<Rightarrow> webPart \<Rightarrow> options \<Rightarrow> webPart" where
  "mergeProperties ext wp opts =
     (if truthyStr (webPartProperties opts) then
        (case JSON_parse ext (the (webPartProperties opts)) of
           Inl _ \<Rightarrow> wp
         | Inr properties \<Rightarrow>
             (case fst (extend ext (getProperty (wpData wp) ''properties'') properties) of
                Some t \<Rightarrow> wp\<lparr> wpData := withProperty (wpData wp) ''properties'' t \<rparr>
              | None \<Rightarrow> wp))
      else wp)"

text \<open>
  Lines 394 to 421. The parsing and merging of \<open>webPartData\<close> is not guarded, so an
  exception there leaves the function.
\<close>

definition setWebPartProperties :: "externals \<Rightarrow> webPart \<Rightarrow> options \<Rightarrow> error + webPart" where
  "setWebPartProperties ext wp opts =
     (let wp1 = mergeProperties ext wp opts
      in if truthyStr (optWebPartData opts) then
           (case JSON_parse ext (the (optWebPartData opts)) of
              Inl msg \<Rightarrow> Inl (SyntaxError msg)
            | Inr data \<Rightarrow>
                (case extend ext (Some (wpData wp1)) data of
                   (_, Some e) \<Rightarrow> Inl e
                 | (None, None) \<Rightarrow> Inl TypeError
                 | (Some t, None) \<Rightarrow>
                     Inr (wp1\<lparr> wpData := t, wpId := getProperty t ''instanceId'' \<rparr>)))
         else Inr wp1)"

subsection \<open>\<open>validate\<close>\<close>

text \<open>\<open>isNumber\<close> of Node's \<open>util\<close>: \<open>typeof arg === 'number'\<close>. The options
  \<open>section\<close> and \<open>column\<close> are numbers whenever they are given.\<close>

definition isNumber :: "int \<Rightarrow> bool" where
  "isNumber n = True"

text \<open>Lines 482 to 532: \<open>None\<close> for \<open>true\<close>, otherwise the message returned.\<close>

definition validate :: "externals \<Rightarrow> options \<Rightarrow> string option" where
  "validate ext opts =
     (if \<not> truthyStr (standardWebPart opts) \<and> \<not> truthyStr (optWebPartId opts) then
        Some ''Specify either the standardWebPart or the webPartId option''
      else if truthyStr (standardWebPart opts) \<and> truthyStr (optWebPartId opts) then
        Some ''Specify either the standardWebPart or the webPartId option but not both''
      else if truthyStr (optWebPartId opts) \<and> \<not> isValidGuid ext (the (optWebPartId opts)) then
        Some (''The webPartId '' @ [CHR 0x27] @ the (optWebPartId opts) @ [CHR 0x27]
              @ '' is not a valid GUID'')
      else if truthyStr (standardWebPart opts)
              \<and> \<not> isValidStandardWebPartType ext (the (standardWebPart opts)) then
        Some (the (standardWebPart opts) @ '' is not a valid standard web part type'')
      else if truthyStr (webPartProperties opts) \<and> truthyStr (optWebPartData opts) then
        Some ''Specify webPartProperties or webPartData but not both''
      else if truthyStr (webPartProperties opts)
              \<and> isl (JSON_parse ext (the (webPartProperties opts))) then
        Some (''Specified webPartProperties is not a valid JSON string. Input: ''
              @ the (webPartProperties opts) @ ''. Error: ''
              @ projl (JSON_parse ext (the (webPartProperties opts))))
      else if truthyStr (optWebPartData opts)
              \<and> isl (JSON_parse ext (the (optWebPartData opts))) then
        Some (''Specified webPartData is not a valid JSON string. Input: ''
              @ the (optWebPartData opts) @ ''. Error: ''
              @ projl (JSON_parse ext (the (optWebPartData opts))))
      else if truthy (optSection opts)
              \<and> (\<not> isNumber (the (optSection opts)) \<or> the (optSection opts) < 1) then
        Some ''The value of parameter section must be 1 or higher''
      else if truthy (optColumn opts)
              \<and> (\<not> isNumber (the (optColumn opts)) \<or> the (optColumn opts) < 1) then
        Some ''The value of parameter column must be 1 or higher''
      else isValidSharePointUrl ext (webUrl opts))"

subsection \<open>\<open>commandAction\<close>: the chain of requests\<close>

text \<open>
  The result of an invocation: the requests issued, in order, and what the callback
  receives (\<open>Inr ()\<close> for \<open>cb()\<close>, \<open>Inl\<close> for the error handed to
  \<open>handleRejectedODataJsonPromise\<close>).

  The last \<open>then\<close> callback (lines 187 to 321): merge the caller's properties, edit the
  layout, post it.
\<close>

definition editAndSave ::
  "externals \<Rightarrow> responses \<Rightarrow> options \<Rightarrow> control list \<Rightarrow> webPart
     \<Rightarrow> request list \<times> (error + unit)" where
  "editAndSave ext env opts canvasContent wp =
     (case setWebPartProperties ext wp opts of
        Inl e \<Rightarrow> ([], Inl e)
      | Inr wp' \<Rightarrow>
         (case placeWebPart canvasContent (optSection opts) (optColumn opts) (optOrder opts) wp' of
            Inl e \<Rightarrow> ([], Inl e)
          | Inr canvasContent' \<Rightarrow>
              ([HttpPost (savepageUrl ext (webUrl opts) (pageFullName (pageName opts)))
                  (Some canvasContent')],
               case saveResponse env of Inl r \<Rightarrow> Inl (RequestFailed r) | Inr _ \<Rightarrow> Inr ())))"

text \<open>The second \<open>then\<close> callback (lines 177 to 186): \<open>getWebPart\<close> requests the
  web parts of the site and resolves with the new web part or rejects.\<close>

definition resolveWebPart ::
  "externals \<Rightarrow> responses \<Rightarrow> options \<Rightarrow> control list
     \<Rightarrow> request list \<times> (error + unit)" where
  "resolveWebPart ext env opts canvasContent =
     (case webPartResponse env of
        Inl r \<Rightarrow> ([HttpGet (webPartsUrl (webUrl opts))], Inl (RequestFailed r))
      | Inr wp \<Rightarrow>
          (let (reqs, res) = editAndSave ext env opts canvasContent wp
           in (HttpGet (webPartsUrl (webUrl opts)) # reqs, res)))"

text \<open>Line 161: \<open>JSON.parse(res.CanvasContent1 || "[{\<dots>}]")\<close>, the layout of the page or
  the default layout when the page has none.\<close>

definition parseLayout :: "externals \<Rightarrow> string option \<Rightarrow> string + control list" where
  "parseLayout ext canvasContent1 =
     (if truthyStr canvasContent1 then parseCanvas ext (the canvasContent1)
      else Inr defaultCanvasContent)"

text \<open>Lines 138 to 176 and the chain as a whole: fetch the page, parse its layout, check
  the page out unless it is checked out to the current user.\<close>

definition commandAction ::
  "externals \<Rightarrow> responses \<Rightarrow> options \<Rightarrow> request list \<times> (error + unit)" where
  "commandAction ext env opts =
     (let fullName = pageFullName (pageName opts);
          fetch = HttpGet (pageUrl ext (webUrl opts) fullName)
      in case pageResponse env of
           Inl r \<Rightarrow> ([fetch], Inl (RequestFailed r))
         | Inr (canvasContent1, checkedOut) \<Rightarrow>
            (case parseLayout ext canvasContent1 of
               Inl msg \<Rightarrow> ([fetch], Inl (SyntaxError msg))
             | Inr canvasContent \<Rightarrow>
                 if checkedOut then
                   (let (reqs, res) = resolveWebPart ext env opts canvasContent
                    in (fetch # reqs, res))
                 else
                   (let checkout = HttpPost (checkoutUrl ext (webUrl opts) fullName) None
                    in case checkoutResponse env of
                         Inl r \<Rightarrow> ([fetch, checkout], Inl (RequestFailed r))
                       | Inr _ \<Rightarrow>
                           (let (reqs, res) = resolveWebPart ext env opts canvasContent
                            in (fetch # checkout # reqs, res)))))"

text \<open>A request that saves a layout.\<close>

definition isSavePage :: "request \<Rightarrow> bool" where
  "isSavePage r = (case r of HttpPost _ (Some _) \<Rightarrow> True | _ \<Rightarrow> False)"

section \<open>Vocabulary of the properties\<close>

text \<open>\<open>firstAt P xs p\<close>: \<open>p\<close> is the first position of \<open>xs\<close> whose element
  satisfies \<open>P\<close>.\<close>

definition firstAt :: "('a \<Rightarrow> bool) \<Rightarrow> 'a list \<Rightarrow> nat \<Rightarrow> bool" where
  "firstAt P xs p = (p < length xs \<and> P (xs ! p) \<and> list_all (\<lambda>x. \<not> P x) (take p xs))"

text \<open>The \<open>controlIndex\<close> values of the controls of a column, in the order of the
  layout.\<close>

definition columnIndices :: "control list \<Rightarrow> int option \<Rightarrow> int \<Rightarrow> int list" where
  "columnIndices canvasContent zone column =
     map controlIndex (positions (filter (inColumn zone column) canvasContent))"

text \<open>\<open>xs\<close> with \<open>x\<close> put in front of position \<open>k\<close>.\<close>

definition insertAt :: "nat \<Rightarrow> 'a \<Rightarrow> 'a list \<Rightarrow> 'a list" where
  "insertAt k x xs = take k xs @ x # drop k xs"

section \<open>Example data\<close>

text \<open>A control with a position, as it appears in a \<open>CanvasContent1\<close> array: an empty
  column when it has no \<open>controlType\<close>, a web part when the type is 3.\<close>

definition exampleControl :: "int option \<Rightarrow> int \<Rightarrow> int \<Rightarrow> int \<Rightarrow> control" where
  "exampleControl ct zone column ci =
     \<lparr> controlType = ct, displayMode = Some 2, ctlId = None,
       position = Some \<lparr> controlIndex = ci, sectionIndex = column, zoneIndex = zone,
                         sectionFactor = 12, layoutIndex = 1 \<rparr>,
       webPartId = None, emphasis = Some (JObj []), webPartData = None,
       otherProps = [] \<rparr>"

text \<open>A web part as \<open>getWebPart\<close> resolves it.\<close>

definition exampleWebPart :: webPart where
  "exampleWebPart =
     \<lparr> wpId = Some (JStr ''89c644b3-f69c-4e84-85d7-dfa04c6163b5''),
       wpData = JObj [(''dataVersion'', JStr ''1.0''), (''properties'', JObj [])],
       wpWebPartId = ''e377ea37-9047-43b9-8cdb-a761be2f8e09'' \<rparr>"

text \<open>
  The layout \<open>L\<close> with the control \<open>x\<close> put in front of position \<open>q\<close> and the column
  numbered from 1 in the order of the layout: the controls of the column in front of \<open>q\<close>
  keep their rank, \<open>x\<close> gets the next index, the controls of the column from \<open>q\<close> on
  move up by one.
\<close>

definition placedAt :: "nat \<Rightarrow> control \<Rightarrow> int option \<Rightarrow> int \<Rightarrow> control list \<Rightarrow> control list" where
  "placedAt q x zone col L =
     renumber zone col 1 (take q L)
     @ setControlIndex (1 + int (length (columnIndices (take q L) zone col))) x
     # renumber zone col (2 + int (length (columnIndices (take q L) zone col))) (drop q L)"

text \<open>
  The placement rule for a result \<open>R\<close> of inserting \<open>x\<close> into the column: when the
  order is unset or greater than the number of controls of the column, \<open>R\<close> is the layout
  with \<open>x\<close> right after a control of the column that has the highest control index;
  otherwise it is the layout with \<open>x\<close> right in front of a control of the column whose
  control index is the one at rank \<open>order\<close> of the sorted control indices of the column.
  In both cases the column is numbered from 1 in the order of the layout.
\<close>

definition orderRule ::
  "control list \<Rightarrow> int option \<Rightarrow> int \<Rightarrow> int option \<Rightarrow> control \<Rightarrow> control list \<Rightarrow> bool" where
  "orderRule L zone col orderOpt x R =
     (let cis = columnIndices L zone col in
      if orderOpt = None \<or> the orderOpt > int (length cis) then
        list_ex (\<lambda>p. hasControlIndex zone col (Some (Max (set cis))) (L ! p)
                    \<and> R = placedAt (Suc p) x zone col L) [0..<length L]
      else
        list_ex (\<lambda>p. hasControlIndex zone col (jsNth (sort cis) (the orderOpt - 1)) (L ! p)
                    \<and> R = placedAt p x zone col L) [0..<length L])"

text \<open>
  Externals for the examples. \<open>JSON.parse\<close> is given on the three texts the examples
  use: it accepts \<open>{}\<close> and throws on every other text, among them the empty text and
  \<open>{\<close>, as the built-in does on these two. A property write succeeds on an object. Every
  identifier and URL is taken as valid.
\<close>

definition exampleExternals :: externals where
  "exampleExternals =
     \<lparr> JSON_parse = (\<lambda>s. if s = ''{}'' then Inr (JObj [])
                          else Inl ''SyntaxError: Unexpected end of JSON input''),
       parseCanvas = (\<lambda>s. Inl ''SyntaxError: Unexpected end of JSON input''),
       encodeURIComponent = (\<lambda>s. s),
       setProperty = (\<lambda>t k v. case t of JObj kvs \<Rightarrow> Inr (JObj (AList.update k v kvs))
                                 | _ \<Rightarrow> Inl ''TypeError: Cannot create property''),
       isValidGuid = (\<lambda>s. True),
       isValidStandardWebPartType = (\<lambda>s. True),
       isValidSharePointUrl = (\<lambda>s. None) \<rparr>"

text \<open>An empty page that is checked out to the current user; every request succeeds.\<close>

definition exampleResponses :: responses where
  "exampleResponses =
     \<lparr> pageResponse = Inr (None, True),
       checkoutResponse = Inr (),
       webPartResponse = Inr exampleWebPart,
       saveResponse = Inr () \<rparr>"

definition exampleOptions :: options where
  "exampleOptions =
     \<lparr> pageName = ''home'',
       webUrl = ''https://contoso.sharepoint.com/sites/team-a'',
       standardWebPart = None,
       optWebPartData = None,
       optWebPartId = Some ''e377ea37-9047-43b9-8cdb-a761be2f8e09'',
       webPartProperties = None,
       optSection = None,
       optColumn = None,
       optOrder = None \<rparr>"

section \<open>Facts about the array primitives\<close>

lemma findIndexFrom_found:
  "\<exists>x \<in> set xs. P x \<Longrightarrow>
     findIndexFrom P xs i = i + int (length (takeWhile (\<lambda>x. \<not> P x) xs))"
proof (induction xs arbitrary: i)
  case Nil
  then show ?case by simp
next
  case (Cons a xs)
  show ?case
  proof (cases "P a")
    case True
    then show ?thesis by simp
  next
    case False
    with Cons.prems have "\<exists>x \<in> set xs. P x" by auto
    from Cons.IH [OF this, of "i + 1"] False show ?thesis by simp
  qed
qed

lemma findIndexFrom_none:
  "\<forall>x \<in> set xs. \<not> P x \<Longrightarrow> findIndexFrom P xs i = -1"
  by (induction xs arbitrary: i) auto

lemma findIndex_found:
  "\<exists>x \<in> set xs. P x \<Longrightarrow> findIndex P xs = int (length (takeWhile (\<lambda>x. \<not> P x) xs))"
  by (simp add: findIndex_def findIndexFrom_found)

lemma findIndex_none:
  "\<forall>x \<in> set xs. \<not> P x \<Longrightarrow> findIndex P xs = -1"
  by (simp add: findIndex_def findIndexFrom_none)

lemma takeWhile_lt: "\<exists>x \<in> set xs. P x \<Longrightarrow> length (takeWhile (\<lambda>x. \<not> P x) xs) < length xs"
  by (induction xs) auto

lemma takeWhile_all_not:
  "list_all (\<lambda>x. \<not> P x) (take (length (takeWhile (\<lambda>x. \<not> P x) xs)) xs)"
  by (induction xs) auto

lemma takeWhile_firstAt:
  assumes ex: "\<exists>x \<in> set xs. P x"
  shows "firstAt P xs (length (takeWhile (\<lambda>x. \<not> P x) xs))"
proof -
  let ?p = "length (takeWhile (\<lambda>x. \<not> P x) xs)"
  have lt: "?p < length xs" using ex by (rule takeWhile_lt)
  have a: "P (xs ! ?p)" using nth_length_takeWhile [OF lt] by simp
  show ?thesis using lt a takeWhile_all_not [of P xs] by (simp add: firstAt_def)
qed

lemma firstAt_lt_False:
  assumes a: "firstAt P xs a" and b: "firstAt P xs b" and lt: "a < b"
  shows False
proof -
  have "a < length (take b xs)" using b lt by (simp add: firstAt_def)
  then have "take b xs ! a \<in> set (take b xs)" by (rule nth_mem)
  moreover have "take b xs ! a = xs ! a" using lt by simp
  ultimately have "xs ! a \<in> set (take b xs)" by simp
  moreover have "\<forall>x \<in> set (take b xs). \<not> P x" using b by (simp add: firstAt_def list_all_iff)
  ultimately have "\<not> P (xs ! a)" by blast
  then show False using a by (simp add: firstAt_def)
qed

lemma firstAt_unique: "firstAt P xs p \<Longrightarrow> firstAt P xs q \<Longrightarrow> p = q"
  using firstAt_lt_False [of P xs p q] firstAt_lt_False [of P xs q p]
  by (cases "p < q"; cases "q < p") auto

lemma firstOccurrences_alt:
  "firstOccurrences xs = map (\<lambda>i. xs ! i) (filter (\<lambda>i. indexOf xs (xs ! i) = int i) [0..<length xs])"
proof -
  have z: "zip xs [0..<length xs] = map (\<lambda>i. (xs ! i, i)) [0..<length xs]"
    by (rule nth_equalityI) auto
  show ?thesis
    unfolding firstOccurrences_def z by (simp add: filter_map comp_def)
qed

lemma indexOf_nth:
  assumes "v \<in> set xs"
  shows "\<exists>k < length xs. indexOf xs v = int k \<and> xs ! k = v"
proof -
  have ex: "\<exists>x \<in> set xs. x = v" using assms by simp
  let ?k = "length (takeWhile (\<lambda>x. \<not> x = v) xs)"
  have f: "firstAt (\<lambda>x. x = v) xs ?k" using takeWhile_firstAt [OF ex] .
  have "indexOf xs v = int ?k" using findIndex_found [OF ex] by (simp add: indexOf_def)
  then show ?thesis using f by (auto simp: firstAt_def)
qed

lemma set_firstOccurrences: "set (firstOccurrences xs) = set xs"
proof
  show "set (firstOccurrences xs) \<subseteq> set xs"
    by (auto simp: firstOccurrences_alt)
  show "set xs \<subseteq> set (firstOccurrences xs)"
  proof
    fix v assume "v \<in> set xs"
    then obtain k where k: "k < length xs" "indexOf xs v = int k" "xs ! k = v"
      using indexOf_nth [of v xs] by blast
    have "indexOf xs (xs ! k) = int k" using k(2) k(3) by simp
    then have "k \<in> set (filter (\<lambda>i. indexOf xs (xs ! i) = int i) [0..<length xs])"
      using k(1) by simp
    then have "xs ! k \<in> (\<lambda>i. xs ! i) ` set (filter (\<lambda>i. indexOf xs (xs ! i) = int i) [0..<length xs])"
      by (rule imageI)
    then have "xs ! k \<in> set (firstOccurrences xs)"
      unfolding firstOccurrences_alt by simp
    then show "v \<in> set (firstOccurrences xs)" using k(3) by simp
  qed
qed

lemma distinct_firstOccurrences: "distinct (firstOccurrences xs)"
proof -
  let ?is = "filter (\<lambda>i. indexOf xs (xs ! i) = int i) [0..<length xs]"
  have inj: "inj_on (\<lambda>i. xs ! i) (set ?is)"
  proof (rule inj_onI)
    fix i j
    assume i: "i \<in> set ?is" and j: "j \<in> set ?is" and e: "xs ! i = xs ! j"
    from i have a: "indexOf xs (xs ! i) = int i" by simp
    from j have b: "indexOf xs (xs ! j) = int j" by simp
    from a e have "indexOf xs (xs ! j) = int i" by (simp only:)
    with b have "int i = int j" by (simp only:)
    then show "i = j" by (simp only: int_int_eq)
  qed
  have d: "distinct ?is" by (rule distinct_filter) (rule distinct_upt)
  have "distinct (map (\<lambda>i. xs ! i) ?is)"
    using d inj by (simp only: distinct_map simp_thms)
  then show ?thesis by (simp only: firstOccurrences_alt)
qed

section \<open>Facts about the editor's steps\<close>

lemma set_positions: "set (positions L) = {p. \<exists>c \<in> set L. position c = Some p}"
  by (induction L) (auto simp: positions_def split: option.splits)

lemma sorted_zoneIndices: "sorted (zoneIndices L)"
  by (simp add: zoneIndices_def)

lemma distinct_zoneIndices: "distinct (zoneIndices L)"
  by (simp add: zoneIndices_def distinct_firstOccurrences)

lemma set_zoneIndices: "set (zoneIndices L) = zoneIndex ` set (positions L)"
  by (simp add: zoneIndices_def set_firstOccurrences)

lemma orElse_simps:
  "orElse None d = d" "orElse (Some 0) d = d" "n \<noteq> 0 \<Longrightarrow> orElse (Some n) d = n"
  by (simp_all add: orElse_def)

lemma resolveSection_unfold:
  "resolveSection L req =
     (if orElse req (int (length (zoneIndices L))) > int (length (zoneIndices L))
      then Inl (InvalidSection (orElse req (int (length (zoneIndices L)))))
      else Inr (jsNth (zoneIndices L) (orElse req (int (length (zoneIndices L))) - 1)))"
  by (simp add: resolveSection_def Let_def)

lemma orElse_gt: "orElse req n > n \<longleftrightarrow> (\<exists>s. req = Some s \<and> s > n)" if "0 \<le> n"
  using that by (cases req) (auto simp: orElse_def)

lemma resolveColumn_unfold:
  "resolveColumn L z c =
     (if list_ex (inColumn z (orElse c 1)) L
      then Inr (length (takeWhile (\<lambda>x. \<not> inColumn z (orElse c 1) x) L))
      else Inl (InvalidColumn c))"
proof (cases "list_ex (inColumn z (orElse c 1)) L")
  case True
  then have ex: "\<exists>x \<in> set L. inColumn z (orElse c 1) x" by (simp add: list_ex_iff)
  show ?thesis using True findIndex_found [OF ex] by (simp add: resolveColumn_def Let_def)
next
  case False
  then have "\<forall>x \<in> set L. \<not> inColumn z (orElse c 1) x" by (simp add: list_ex_iff)
  from findIndex_none [OF this] False show ?thesis by (simp add: resolveColumn_def Let_def)
qed

lemma resolveColumn_Inr_iff:
  "resolveColumn L z c = Inr a \<longleftrightarrow> firstAt (inColumn z (orElse c 1)) L a"
proof (cases "list_ex (inColumn z (orElse c 1)) L")
  case True
  then have ex: "\<exists>x \<in> set L. inColumn z (orElse c 1) x" by (simp add: list_ex_iff)
  have f: "firstAt (inColumn z (orElse c 1)) L (length (takeWhile (\<lambda>x. \<not> inColumn z (orElse c 1) x) L))"
    by (rule takeWhile_firstAt [OF ex])
  show ?thesis
  proof
    assume "resolveColumn L z c = Inr a"
    then have "a = length (takeWhile (\<lambda>x. \<not> inColumn z (orElse c 1) x) L)"
      using True by (simp add: resolveColumn_unfold)
    then show "firstAt (inColumn z (orElse c 1)) L a" using f by simp
  next
    assume "firstAt (inColumn z (orElse c 1)) L a"
    then have "a = length (takeWhile (\<lambda>x. \<not> inColumn z (orElse c 1) x) L)"
      using f by (rule firstAt_unique)
    then show "resolveColumn L z c = Inr a" using True by (simp add: resolveColumn_unfold)
  qed
next
  case False
  then have no: "\<forall>x \<in> set L. \<not> inColumn z (orElse c 1) x" by (simp add: list_ex_iff)
  have "\<not> firstAt (inColumn z (orElse c 1)) L a"
  proof
    assume "firstAt (inColumn z (orElse c 1)) L a"
    then have "a < length L" "inColumn z (orElse c 1) (L ! a)" by (simp_all add: firstAt_def)
    then show False using no nth_mem by blast
  qed
  then show ?thesis using False by (simp add: resolveColumn_unfold)
qed

lemma resolveColumn_anchor:
  assumes "resolveColumn L z c = Inr a"
  shows "a < length L" and "inColumn z (orElse c 1) (L ! a)"
  using assms by (simp_all add: resolveColumn_Inr_iff firstAt_def)

lemma spliceReplace_update: "a < length L \<Longrightarrow> spliceReplace (int a) x L = L[a := x]"
  by (simp add: spliceReplace_def spliceStart_def upd_conv_take_nth_drop min_def)

lemma inColumn_position:
  "inColumn z col c \<Longrightarrow> \<exists>p. position c = Some p \<and> Some (zoneIndex p) = z \<and> sectionIndex p = col"
  by (cases "position c") (simp_all add: inColumn_def)

section \<open>Section resolution\<close>

text \<open>
  Claim C5. For every layout, the sections are the distinct zone indices of the controls
  that carry a position, in ascending order. An unset section stands for the number of
  sections. The resolution is rejected with \<open>InvalidSection\<close> exactly when the requested
  section is greater than the number of sections, and otherwise it returns
  \<open>zoneIndices[section - 1]\<close>, which for a section between 1 and the number of sections
  is the zone index of that rank.
\<close>

theorem resolveSection_spec:
  "sorted (zoneIndices L) \<and> distinct (zoneIndices L)
   \<and> set (zoneIndices L) = zoneIndex ` set (positions L)
   \<and> set (positions L) = {p. \<exists>c \<in> set L. position c = Some p}
   \<and> resolveSection L None = resolveSection L (Some (int (length (zoneIndices L))))
   \<and> (isl (resolveSection L req) \<longleftrightarrow> (\<exists>s. req = Some s \<and> s > int (length (zoneIndices L))))
   \<and> (req = Some s \<and> s > int (length (zoneIndices L))
        \<longrightarrow> resolveSection L req = Inl (InvalidSection s))
   \<and> (\<not> isl (resolveSection L req)
        \<longrightarrow> resolveSection L req =
              Inr (jsNth (zoneIndices L) (orElse req (int (length (zoneIndices L))) - 1)))
   \<and> (req = Some s \<and> 1 \<le> s \<and> s \<le> int (length (zoneIndices L))
        \<longrightarrow> resolveSection L req = Inr (Some (zoneIndices L ! nat (s - 1))))
   \<and> (req = None \<and> zoneIndices L \<noteq> []
        \<longrightarrow> resolveSection L req = Inr (Some (last (zoneIndices L))))"
proof -
  let ?zs = "zoneIndices L"
  let ?n = "int (length ?zs)"
  have n0: "0 \<le> ?n" by simp
  have a: "resolveSection L None = resolveSection L (Some ?n)"
    by (simp add: resolveSection_unfold orElse_def)
  have b: "isl (resolveSection L req) \<longleftrightarrow> (\<exists>s. req = Some s \<and> s > ?n)"
    using orElse_gt [OF n0, of req] by (simp add: resolveSection_unfold)
  have c: "req = Some s \<and> s > ?n \<longrightarrow> resolveSection L req = Inl (InvalidSection s)"
    by (auto simp: resolveSection_unfold orElse_def)
  have d: "\<not> isl (resolveSection L req) \<longrightarrow>
           resolveSection L req = Inr (jsNth ?zs (orElse req ?n - 1))"
    by (simp add: resolveSection_unfold)
  have e: "req = Some s \<and> 1 \<le> s \<and> s \<le> ?n \<longrightarrow>
           resolveSection L req = Inr (Some (?zs ! nat (s - 1)))"
    by (auto simp: resolveSection_unfold orElse_def jsNth_def)
  have f: "req = None \<and> ?zs \<noteq> [] \<longrightarrow> resolveSection L req = Inr (Some (last ?zs))"
  proof
    assume h: "req = None \<and> ?zs \<noteq> []"
    then have "nat (?n - 1) = length ?zs - 1" by simp
    then have "?zs ! nat (?n - 1) = last ?zs" using h by (simp add: last_conv_nth)
    then show "resolveSection L req = Inr (Some (last ?zs))"
      using h by (simp add: resolveSection_unfold orElse_def jsNth_def)
  qed
  show ?thesis
    using sorted_zoneIndices [of L] distinct_zoneIndices [of L] set_zoneIndices [of L]
      set_positions [of L] a b c d e f
    by (intro conjI)
qed

text \<open>A layout with the zones 3, 1, 3 (two columns) and the page settings: the sections
  are the zones 1 and 3.\<close>

theorem resolveSection_spec_witness:
  "zoneIndices (exampleControl None 3 1 1 # exampleControl None 1 1 1
      # exampleControl None 3 2 1 # defaultCanvasContent) = [1, 3]
   \<and> resolveSection (exampleControl None 3 1 1 # exampleControl None 1 1 1
      # exampleControl None 3 2 1 # defaultCanvasContent) (Some 1) = Inr (Some 1)
   \<and> resolveSection (exampleControl None 3 1 1 # exampleControl None 1 1 1
      # exampleControl None 3 2 1 # defaultCanvasContent) (Some 3) = Inl (InvalidSection 3)
   \<and> resolveSection (exampleControl None 3 1 1 # exampleControl None 1 1 1
      # exampleControl None 3 2 1 # defaultCanvasContent) None = Inr (Some 3)"
proof -
  let ?L = "exampleControl None 3 1 1 # exampleControl None 1 1 1
      # exampleControl None 3 2 1 # defaultCanvasContent"
  have z: "zoneIndices ?L = [1, 3]" by code_simp
  have "Some 1 = Some (1::int) \<and> (1::int) \<le> 1 \<and> 1 \<le> int (length (zoneIndices ?L))
        \<longrightarrow> resolveSection ?L (Some 1) = Inr (Some (zoneIndices ?L ! nat (1 - 1)))"
    using resolveSection_spec [of ?L "Some 1" 1] by blast
  then have a: "resolveSection ?L (Some 1) = Inr (Some 1)" using z by simp
  have "Some 3 = Some (3::int) \<and> 3 > int (length (zoneIndices ?L))
        \<longrightarrow> resolveSection ?L (Some 3) = Inl (InvalidSection 3)"
    using resolveSection_spec [of ?L "Some 3" 3] by blast
  then have b: "resolveSection ?L (Some 3) = Inl (InvalidSection 3)" using z by simp
  have "(None :: int option) = None \<and> zoneIndices ?L \<noteq> []
        \<longrightarrow> resolveSection ?L None = Inr (Some (last (zoneIndices ?L)))"
    using resolveSection_spec [of ?L None 0] by blast
  then have c: "resolveSection ?L None = Inr (Some 3)" using z by simp
  show ?thesis using z a b c by (intro conjI)
qed

section \<open>The default section\<close>

lemma zoneIndices_default: "position m = None \<Longrightarrow> zoneIndices [defaultSection, m] = [1]"
  by (simp add: zoneIndices_def positions_def defaultSection_def firstOccurrences_def
      indexOf_def findIndex_def)

lemma placeWebPart_single:
  assumes "position m = None"
  shows "placeWebPart [m] None None None wp =
           Inr [setControlIndex 1 (webPartControl defaultSection wp), m]"
proof -
  have e: "ensureDefaultSection [m] = [defaultSection, m]"
    by (simp add: ensureDefaultSection_def)
  have s: "resolveSection [defaultSection, m] None = Inr (Some 1)"
    using zoneIndices_default [OF assms] by (simp add: resolveSection_unfold orElse_def jsNth_def)
  have i: "inColumn (Some 1) 1 defaultSection"
    by (simp add: inColumn_def defaultSection_def)
  have c: "resolveColumn [defaultSection, m] (Some 1) None = Inr 0"
    using i by (simp add: resolveColumn_unfold orElse_def)
  have t: "\<not> truthy (controlType defaultSection)"
    by (simp add: truthy_def defaultSection_def)
  have r: "insertControl [defaultSection, m] 0 (Some 1) 1 None (webPartControl defaultSection wp)
         = [setControlIndex 1 (webPartControl defaultSection wp), m]"
    using t by (simp add: insertControl_def spliceReplace_def spliceStart_def)
  show ?thesis
    using e s c r by (simp add: placeWebPart_def orElse_def)
qed

text \<open>
  Claim C3, as the code has it. For every layout with exactly one entry, the default-section
  step puts the synthetic section in front of that entry: the result has two entries, the
  first is the synthetic section, the second the entry that was there. Starting from a
  single entry without a position (the page settings), adding a web part with no section,
  column and order gives two entries: the first is the web part, with control type 3 at
  zone 1, column 1, control index 1, the second is the page settings entry.
\<close>

theorem default_section_first:
  "(length L = 1 \<longrightarrow>
      ensureDefaultSection L = defaultSection # L \<and> length (ensureDefaultSection L) = 2)
   \<and> (position m = None \<longrightarrow>
        placeWebPart [m] None None None wp
          = Inr [setControlIndex 1 (webPartControl defaultSection wp), m]
        \<and> controlType (setControlIndex 1 (webPartControl defaultSection wp)) = Some 3
        \<and> map_option zoneIndex (position (setControlIndex 1 (webPartControl defaultSection wp)))
            = Some 1
        \<and> map_option sectionIndex
              (position (setControlIndex 1 (webPartControl defaultSection wp))) = Some 1
        \<and> map_option controlIndex
              (position (setControlIndex 1 (webPartControl defaultSection wp))) = Some 1)"
proof -
  have a: "length L = 1 \<longrightarrow>
      ensureDefaultSection L = defaultSection # L \<and> length (ensureDefaultSection L) = 2"
    by (simp add: ensureDefaultSection_def)
  have b: "controlType (setControlIndex 1 (webPartControl defaultSection wp)) = Some 3"
    by (simp add: setControlIndex_def webPartControl_def)
  have c: "position (setControlIndex 1 (webPartControl defaultSection wp))
           = Some \<lparr> controlIndex = 1, sectionIndex = 1, zoneIndex = 1,
                    sectionFactor = 12, layoutIndex = 1 \<rparr>"
    by (simp add: setControlIndex_def webPartControl_def defaultSection_def)
  show ?thesis using a b placeWebPart_single [of m wp] by (simp add: c)
qed

theorem default_section_first_witness:
  "length defaultCanvasContent = 1
   \<and> ensureDefaultSection defaultCanvasContent = defaultSection # defaultCanvasContent
   \<and> position (hd defaultCanvasContent) = None
   \<and> placeWebPart defaultCanvasContent None None None exampleWebPart
       = Inr [setControlIndex 1 (webPartControl defaultSection exampleWebPart),
              hd defaultCanvasContent]"
proof -
  have l: "length defaultCanvasContent = 1" by (simp add: defaultCanvasContent_def)
  have p: "position (hd defaultCanvasContent) = None" by (simp add: defaultCanvasContent_def)
  have d: "defaultCanvasContent = [hd defaultCanvasContent]"
    by (simp add: defaultCanvasContent_def)
  have "placeWebPart [hd defaultCanvasContent] None None None exampleWebPart
       = Inr [setControlIndex 1 (webPartControl defaultSection exampleWebPart),
              hd defaultCanvasContent]"
    using default_section_first [of defaultCanvasContent "hd defaultCanvasContent" exampleWebPart]
      p by blast
  then have r: "placeWebPart defaultCanvasContent None None None exampleWebPart
       = Inr [setControlIndex 1 (webPartControl defaultSection exampleWebPart),
              hd defaultCanvasContent]"
    using d by simp
  have e: "ensureDefaultSection defaultCanvasContent = defaultSection # defaultCanvasContent"
    using default_section_first [of defaultCanvasContent "hd defaultCanvasContent" exampleWebPart]
      l by blast
  show ?thesis using l e p r by (intro conjI)
qed

text \<open>The claim as stated fails on the initial layout of an empty page: the second entry
  after the default-section step is the page settings entry, not the synthetic section,
  and after adding a web part the second entry is still the page settings entry (control
  type 0, no position) while the web part is the first.\<close>

theorem default_section_second_counterexample:
  "ensureDefaultSection defaultCanvasContent ! 1 \<noteq> defaultSection
   \<and> ensureDefaultSection defaultCanvasContent ! 0 = defaultSection
   \<and> map controlType (projr (placeWebPart defaultCanvasContent None None None exampleWebPart))
       = [Some 3, Some 0]
   \<and> map position (projr (placeWebPart defaultCanvasContent None None None exampleWebPart))
       = [Some \<lparr> controlIndex = 1, sectionIndex = 1, zoneIndex = 1,
                 sectionFactor = 12, layoutIndex = 1 \<rparr>, None]"
  by (simp add: placeWebPart_single defaultCanvasContent_def ensureDefaultSection_def
      defaultSection_def setControlIndex_def webPartControl_def)

section \<open>Replacing an empty column\<close>

text \<open>
  Claim C4. When the anchor found by the column resolution has no control type (or the
  type 0, which the test \<open>!control.controlType\<close> treats alike), the new control takes the
  anchor's place in the array with control index 1, whatever order was requested; every
  other entry and the number of entries stay as they were.
\<close>

theorem placeholder_replaced:
  assumes "resolveColumn L zone columnOpt = Inr a"
    and "\<not> truthy (controlType (L ! a))"
  shows "insertControl L a zone (orElse columnOpt 1) orderOpt (webPartControl (L ! a) wp)
           = L[a := setControlIndex 1 (webPartControl (L ! a) wp)]
         \<and> length (insertControl L a zone (orElse columnOpt 1) orderOpt
                     (webPartControl (L ! a) wp)) = length L
         \<and> map_option controlIndex
             (position (insertControl L a zone (orElse columnOpt 1) orderOpt
                          (webPartControl (L ! a) wp) ! a)) = Some 1
         \<and> inColumn zone (orElse columnOpt 1)
             (insertControl L a zone (orElse columnOpt 1) orderOpt
                (webPartControl (L ! a) wp) ! a)
         \<and> controlType (insertControl L a zone (orElse columnOpt 1) orderOpt
                          (webPartControl (L ! a) wp) ! a) = Some 3"
proof -
  have lt: "a < length L" using assms(1) by (rule resolveColumn_anchor)
  have "inColumn zone (orElse columnOpt 1) (L ! a)" using assms(1) by (rule resolveColumn_anchor)
  then obtain p where p: "position (L ! a) = Some p" "Some (zoneIndex p) = zone"
      "sectionIndex p = orElse columnOpt 1"
    using inColumn_position by blast
  have eq: "insertControl L a zone (orElse columnOpt 1) orderOpt (webPartControl (L ! a) wp)
           = L[a := setControlIndex 1 (webPartControl (L ! a) wp)]"
    using assms(2) lt by (simp add: insertControl_def spliceReplace_update)
  have ci: "map_option controlIndex
              (position (setControlIndex 1 (webPartControl (L ! a) wp))) = Some 1"
    using p by (simp add: setControlIndex_def webPartControl_def)
  have ic: "inColumn zone (orElse columnOpt 1) (setControlIndex 1 (webPartControl (L ! a) wp))"
    using p by (simp add: setControlIndex_def webPartControl_def inColumn_def)
  have ct: "controlType (setControlIndex 1 (webPartControl (L ! a) wp)) = Some 3"
    by (simp add: setControlIndex_def webPartControl_def)
  show ?thesis using lt ci ic ct by (simp add: eq)
qed

theorem placeholder_replaced_witness:
  "resolveColumn [exampleControl (Some 3) 1 1 1, exampleControl None 1 2 1] (Some 1) (Some 2)
     = Inr 1
   \<and> \<not> truthy (controlType ([exampleControl (Some 3) 1 1 1, exampleControl None 1 2 1] ! 1))
   \<and> insertControl [exampleControl (Some 3) 1 1 1, exampleControl None 1 2 1] 1 (Some 1) 2
        (Some 5) (webPartControl (exampleControl None 1 2 1) exampleWebPart)
      = [exampleControl (Some 3) 1 1 1,
         setControlIndex 1 (webPartControl (exampleControl None 1 2 1) exampleWebPart)]"
proof -
  let ?L = "[exampleControl (Some 3) 1 1 1, exampleControl None 1 2 1]"
  have r: "resolveColumn ?L (Some 1) (Some 2) = Inr 1"
    by (simp add: resolveColumn_unfold orElse_def inColumn_def exampleControl_def)
  have t: "\<not> truthy (controlType (?L ! 1))"
    by (simp add: truthy_def exampleControl_def)
  have "insertControl ?L 1 (Some 1) (orElse (Some 2) 1) (Some 5)
           (webPartControl (?L ! 1) exampleWebPart)
        = ?L[1 := setControlIndex 1 (webPartControl (?L ! 1) exampleWebPart)]"
    using placeholder_replaced [OF r t, of "Some 5" exampleWebPart] by blast
  then have i: "insertControl ?L 1 (Some 1) 2 (Some 5)
        (webPartControl (exampleControl None 1 2 1) exampleWebPart)
      = [exampleControl (Some 3) 1 1 1,
         setControlIndex 1 (webPartControl (exampleControl None 1 2 1) exampleWebPart)]"
    by (simp add: orElse_def)
  show ?thesis using r t i by (intro conjI)
qed

section \<open>Renumbering a column\<close>

lemma inColumn_setControlIndex [simp]:
  "inColumn zone col (setControlIndex i c) = inColumn zone col c"
  by (cases "position c") (simp_all add: inColumn_def setControlIndex_def)

lemma length_renumber [simp]: "length (renumber zone col i L) = length L"
  by (induction L arbitrary: i) simp_all

lemma columnIndices_Nil [simp]: "columnIndices [] zone col = []"
  by (simp add: columnIndices_def positions_def)

lemma columnIndices_Cons:
  "columnIndices (c # cs) zone col =
     (if inColumn zone col c then controlIndex (the (position c)) # columnIndices cs zone col
      else columnIndices cs zone col)"
  by (cases "position c") (simp_all add: columnIndices_def positions_def inColumn_def)

lemma columnIndices_append:
  "columnIndices (xs @ ys) zone col = columnIndices xs zone col @ columnIndices ys zone col"
  by (induction xs) (simp_all add: columnIndices_Cons)

lemma length_columnIndices:
  "length (columnIndices L zone col) = length (filter (inColumn zone col) L)"
  by (induction L) (simp_all add: columnIndices_Cons)

lemma controlIndex_setControlIndex:
  "inColumn zone col c \<Longrightarrow> controlIndex (the (position (setControlIndex i c))) = i"
  by (cases "position c") (simp_all add: inColumn_def setControlIndex_def)

lemma columnIndices_renumber:
  "columnIndices (renumber zone col i L) zone col
     = [i .. i + int (length (columnIndices L zone col)) - 1]"
proof (induction L arbitrary: i)
  case Nil
  then show ?case by simp
next
  case (Cons c cs)
  show ?case
  proof (cases "inColumn zone col c")
    case True
    have "[i .. i + int (length (columnIndices (c # cs) zone col)) - 1]
          = i # [i + 1 .. i + 1 + int (length (columnIndices cs zone col)) - 1]"
      using True by (simp add: columnIndices_Cons upto_rec1 [of i])
    then show ?thesis
      using True Cons.IH [of "i + 1"]
      by (simp add: columnIndices_Cons controlIndex_setControlIndex)
  next
    case False
    then show ?thesis using Cons.IH [of i] by (simp add: columnIndices_Cons)
  qed
qed

lemma columnIndices_insertAt:
  "inColumn zone col x \<Longrightarrow>
     length (columnIndices (insertAt k x L) zone col) = Suc (length (columnIndices L zone col))"
proof -
  assume x: "inColumn zone col x"
  have "length (columnIndices (take k L) zone col) + length (columnIndices (drop k L) zone col)
        = length (columnIndices (take k L @ drop k L) zone col)"
    by (simp only: columnIndices_append length_append)
  then show ?thesis
    using x by (simp add: insertAt_def columnIndices_append columnIndices_Cons)
qed

lemma spliceInsert_insertAt: "spliceInsert s x L = insertAt (spliceStart s (length L)) x L"
  by (simp add: spliceInsert_def insertAt_def Let_def)

lemma length_insertAt [simp]: "length (insertAt k x L) = Suc (length L)"
  by (simp add: insertAt_def)

lemma insertControl_occupied:
  assumes "truthy (controlType (L ! a))"
  shows "\<exists>k. insertControl L a zone col orderOpt wpc = renumber zone col 1 (insertAt k wpc L)"
  using assms by (auto simp: insertControl_def Let_def spliceInsert_insertAt)

lemma inColumn_webPartControl:
  "inColumn zone col c \<Longrightarrow> inColumn zone col (webPartControl c wp)"
  by (simp add: inColumn_def webPartControl_def)

text \<open>
  Claim C1. After a control is inserted into an occupied column (the anchor has a control
  type), the control indices of the column, read in the order of the layout, are
  \<open>1, 2, \<dots>, k\<close> with \<open>k\<close> the number of controls that were in the column plus one; as a
  set they are \<open>{1..k}\<close>. The layout has one entry more.
\<close>

theorem insert_contiguous:
  assumes "resolveColumn L zone columnOpt = Inr a"
    and "truthy (controlType (L ! a))"
  shows "columnIndices
           (insertControl L a zone (orElse columnOpt 1) orderOpt (webPartControl (L ! a) wp))
           zone (orElse columnOpt 1)
         = [1 .. int (length (columnIndices L zone (orElse columnOpt 1))) + 1]
       \<and> set (columnIndices
           (insertControl L a zone (orElse columnOpt 1) orderOpt (webPartControl (L ! a) wp))
           zone (orElse columnOpt 1))
         = {1 .. int (length (columnIndices L zone (orElse columnOpt 1))) + 1}
       \<and> length (filter (inColumn zone (orElse columnOpt 1))
           (insertControl L a zone (orElse columnOpt 1) orderOpt (webPartControl (L ! a) wp)))
         = length (filter (inColumn zone (orElse columnOpt 1)) L) + 1
       \<and> length (insertControl L a zone (orElse columnOpt 1) orderOpt
                   (webPartControl (L ! a) wp)) = length L + 1"
proof -
  let ?col = "orElse columnOpt 1"
  let ?wpc = "webPartControl (L ! a) wp"
  let ?R = "insertControl L a zone ?col orderOpt ?wpc"
  have "inColumn zone ?col (L ! a)" using assms(1) by (rule resolveColumn_anchor)
  then have w: "inColumn zone ?col ?wpc" by (rule inColumn_webPartControl)
  obtain k where k: "?R = renumber zone ?col 1 (insertAt k ?wpc L)"
    using insertControl_occupied [OF assms(2)] by blast
  have l: "columnIndices ?R zone ?col = [1 .. int (length (columnIndices L zone ?col)) + 1]"
    unfolding k columnIndices_renumber columnIndices_insertAt [OF w]
    by (simp add: add.commute)
  then have s: "set (columnIndices ?R zone ?col)
                = {1 .. int (length (columnIndices L zone ?col)) + 1}"
    by simp
  have "length (columnIndices ?R zone ?col) = length (columnIndices L zone ?col) + 1"
    unfolding l by simp
  then have f: "length (filter (inColumn zone ?col) ?R)
                = length (filter (inColumn zone ?col) L) + 1"
    by (simp only: length_columnIndices)
  have n: "length ?R = length L + 1" unfolding k by simp
  show ?thesis using l s f n by (intro conjI)
qed

theorem insert_contiguous_witness:
  "resolveColumn (exampleControl (Some 3) 1 1 1 # exampleControl (Some 3) 1 1 2
                    # defaultCanvasContent) (Some 1) None = Inr 0
   \<and> truthy (controlType ((exampleControl (Some 3) 1 1 1 # exampleControl (Some 3) 1 1 2
                    # defaultCanvasContent) ! 0))
   \<and> columnIndices
        (insertControl (exampleControl (Some 3) 1 1 1 # exampleControl (Some 3) 1 1 2
                          # defaultCanvasContent) 0 (Some 1) 1 (Some 1)
           (webPartControl (exampleControl (Some 3) 1 1 1) exampleWebPart))
        (Some 1) 1 = [1, 2, 3]"
proof -
  let ?L = "exampleControl (Some 3) 1 1 1 # exampleControl (Some 3) 1 1 2 # defaultCanvasContent"
  have r: "resolveColumn ?L (Some 1) None = Inr 0"
    by (simp add: resolveColumn_unfold orElse_def inColumn_def exampleControl_def)
  have t: "truthy (controlType (?L ! 0))"
    by (simp add: truthy_def exampleControl_def)
  have n: "columnIndices ?L (Some 1) 1 = [1, 2]"
    by (simp add: columnIndices_Cons inColumn_def exampleControl_def defaultCanvasContent_def)
  have u: "[1 .. 3] = [1, 2, 3 :: int]" by code_simp
  have "columnIndices
          (insertControl ?L 0 (Some 1) (orElse None 1) (Some 1)
             (webPartControl (?L ! 0) exampleWebPart))
          (Some 1) (orElse None 1)
        = [1 .. int (length (columnIndices ?L (Some 1) (orElse None 1))) + 1]"
    using insert_contiguous [OF r t, of "Some 1" exampleWebPart] by blast
  then have c: "columnIndices
        (insertControl ?L 0 (Some 1) 1 (Some 1)
           (webPartControl (exampleControl (Some 3) 1 1 1) exampleWebPart))
        (Some 1) 1 = [1, 2, 3]"
    using n u by (simp add: orElse_def)
  show ?thesis using r t c by (intro conjI)
qed

section \<open>Where the new control goes\<close>

lemma renumber_append:
  "renumber zone col i (xs @ ys)
     = renumber zone col i xs
       @ renumber zone col (i + int (length (columnIndices xs zone col))) ys"
proof (induction xs arbitrary: i)
  case Nil
  then show ?case by simp
next
  case (Cons c cs)
  show ?case using Cons.IH [of "i + 1"] Cons.IH [of i]
    by (simp add: columnIndices_Cons add.assoc)
qed

lemma renumber_insertAt:
  "inColumn zone col x \<Longrightarrow>
     renumber zone col 1 (insertAt q x L) = placedAt q x zone col L"
  by (simp add: insertAt_def placedAt_def renumber_append)

lemma last_sort_Max:
  fixes xs :: "int list"
  assumes "xs \<noteq> []"
  shows "last (sort xs) = Max (set xs)"
proof -
  have ne: "sort xs \<noteq> []" using assms by (metis length_0_conv length_sort)
  have "Max (set (sort xs)) = last (sort xs)"
  proof (rule Max_eqI)
    show "finite (set (sort xs))" by simp
    show "last (sort xs) \<in> set (sort xs)" using ne by (rule last_in_set)
    fix y assume "y \<in> set (sort xs)"
    then obtain i where i: "i < length (sort xs)" "sort xs ! i = y"
      unfolding in_set_conv_nth by blast
    have "i \<le> length (sort xs) - 1" using i(1) by simp
    moreover have "length (sort xs) - 1 < length (sort xs)" using i(1) by simp
    ultimately have "sort xs ! i \<le> sort xs ! (length (sort xs) - 1)"
      using sorted_sort [of xs] by (simp only: sorted_nth_mono)
    then show "y \<le> last (sort xs)" using i(2) ne by (simp add: last_conv_nth)
  qed
  then show ?thesis by simp
qed

lemma columnIndices_mem:
  "m \<in> set (columnIndices L zone col) \<longleftrightarrow> (\<exists>c \<in> set L. hasControlIndex zone col (Some m) c)"
proof (induction L)
  case Nil
  then show ?case by simp
next
  case (Cons c cs)
  have "hasControlIndex zone col (Some m) c
        \<longleftrightarrow> inColumn zone col c \<and> controlIndex (the (position c)) = m"
    by (cases "position c") (auto simp: hasControlIndex_def inColumn_def)
  then show ?case using Cons.IH by (auto simp: columnIndices_Cons)
qed

lemma findIndex_firstAt:
  assumes "\<exists>x \<in> set xs. P x"
  shows "\<exists>p. findIndex P xs = int p \<and> firstAt P xs p"
  using findIndex_found [OF assms] takeWhile_firstAt [OF assms] by blast

lemma spliceStart_inside: "p \<le> len \<Longrightarrow> spliceStart (int p) len = p"
  by (simp add: spliceStart_def)

lemma controlIndices_sort: "controlIndices L zone col = sort (columnIndices L zone col)"
  by (simp add: controlIndices_def columnIndices_def)

lemma anchor_columnIndices:
  assumes "resolveColumn L zone columnOpt = Inr a"
  shows "columnIndices L zone (orElse columnOpt 1) \<noteq> []"
proof -
  have "a < length L" "inColumn zone (orElse columnOpt 1) (L ! a)"
    using assms by (rule resolveColumn_anchor)+
  then have "L ! a \<in> set (filter (inColumn zone (orElse columnOpt 1)) L)" by simp
  then have "filter (inColumn zone (orElse columnOpt 1)) L \<noteq> []" by (metis empty_iff empty_set)
  then show ?thesis by (metis length_columnIndices length_0_conv)
qed

lemma insert_after_found:
  assumes m: "m \<in> set (columnIndices L zone col)"
  shows "\<exists>p. firstAt (hasControlIndex zone col (Some m)) L p
             \<and> spliceInsert (findIndex (hasControlIndex zone col (Some m)) L + 1) x L
                 = insertAt (Suc p) x L"
proof -
  have ex: "\<exists>c \<in> set L. hasControlIndex zone col (Some m) c"
    using m columnIndices_mem [of m L zone col] by (rule_tac iffD1)
  obtain p where p1: "findIndex (hasControlIndex zone col (Some m)) L = int p"
      and p2: "firstAt (hasControlIndex zone col (Some m)) L p"
    using findIndex_firstAt [OF ex] by (elim exE conjE)
  have "Suc p \<le> length L" using p2 by (simp add: firstAt_def)
  then have st: "spliceStart (int (Suc p)) (length L) = Suc p" by (rule spliceStart_inside)
  have "int p + 1 = int (Suc p)" by simp
  then have "spliceInsert (int p + 1) x L = insertAt (Suc p) x L"
    using st by (simp only: spliceInsert_insertAt)
  then have "spliceInsert (findIndex (hasControlIndex zone col (Some m)) L + 1) x L
                 = insertAt (Suc p) x L"
    by (simp only: p1)
  with p2 show ?thesis by blast
qed

lemma insert_before_found:
  assumes m: "m \<in> set (columnIndices L zone col)"
  shows "\<exists>p. firstAt (hasControlIndex zone col (Some m)) L p
             \<and> spliceInsert (findIndex (hasControlIndex zone col (Some m)) L) x L
                 = insertAt p x L"
proof -
  have ex: "\<exists>c \<in> set L. hasControlIndex zone col (Some m) c"
    using m columnIndices_mem [of m L zone col] by (rule_tac iffD1)
  obtain p where p1: "findIndex (hasControlIndex zone col (Some m)) L = int p"
      and p2: "firstAt (hasControlIndex zone col (Some m)) L p"
    using findIndex_firstAt [OF ex] by (elim exE conjE)
  have "p \<le> length L" using p2 by (simp add: firstAt_def)
  then have st: "spliceStart (int p) (length L) = p" by (rule spliceStart_inside)
  have "spliceInsert (int p) x L = insertAt p x L"
    using st by (simp only: spliceInsert_insertAt)
  then have "spliceInsert (findIndex (hasControlIndex zone col (Some m)) L) x L = insertAt p x L"
    by (simp only: p1)
  with p2 show ?thesis by blast
qed

lemma insertControl_append:
  assumes t: "truthy (controlType (L ! a))" and w: "inColumn zone col x"
    and ne: "columnIndices L zone col \<noteq> []"
    and o: "\<not> truthy orderOpt \<or> the orderOpt > int (length (columnIndices L zone col))"
  shows "\<exists>p. firstAt (hasControlIndex zone col (Some (Max (set (columnIndices L zone col))))) L p
             \<and> insertControl L a zone col orderOpt x = placedAt (Suc p) x zone col L"
proof -
  let ?cis = "columnIndices L zone col"
  have sne: "sort ?cis \<noteq> []" using ne by (metis length_0_conv length_sort)
  have pv: "popValue (controlIndices L zone col) = Some (Max (set ?cis))"
    using sne last_sort_Max [OF ne] by (simp add: popValue_def controlIndices_sort)
  have "Max (set ?cis) \<in> set ?cis" using ne by (intro Max_in) simp_all
  from insert_after_found [OF this] obtain p where
    p: "firstAt (hasControlIndex zone col (Some (Max (set ?cis)))) L p"
       "spliceInsert (findIndex (hasControlIndex zone col (Some (Max (set ?cis)))) L + 1) x L
         = insertAt (Suc p) x L" by blast
  have o': "\<not> truthy orderOpt \<or> the orderOpt > int (length (controlIndices L zone col))"
    using o by (simp add: controlIndices_sort)
  have "insertControl L a zone col orderOpt x = renumber zone col 1 (insertAt (Suc p) x L)"
    using t o' pv p(2) by (simp add: insertControl_def Let_def)
  then show ?thesis using p(1) renumber_insertAt [OF w] by auto
qed

lemma insertControl_before:
  assumes t: "truthy (controlType (L ! a))" and w: "inColumn zone col x"
    and k1: "1 \<le> k" and k2: "k \<le> int (length (columnIndices L zone col))"
  shows "\<exists>p. firstAt (hasControlIndex zone col
                          (Some (sort (columnIndices L zone col) ! nat (k - 1)))) L p
             \<and> insertControl L a zone col (Some k) x = placedAt p x zone col L"
proof -
  let ?cis = "columnIndices L zone col"
  have lt: "nat (k - 1) < length (sort ?cis)" using k1 k2 by simp
  have js: "jsNth (controlIndices L zone col) (k - 1) = Some (sort ?cis ! nat (k - 1))"
    using k1 k2 by (simp add: jsNth_def controlIndices_sort)
  have "sort ?cis ! nat (k - 1) \<in> set (sort ?cis)" using lt by (rule nth_mem)
  then have "sort ?cis ! nat (k - 1) \<in> set ?cis" by simp
  from insert_before_found [OF this] obtain p where
    p: "firstAt (hasControlIndex zone col (Some (sort ?cis ! nat (k - 1)))) L p"
       "spliceInsert (findIndex (hasControlIndex zone col (Some (sort ?cis ! nat (k - 1)))) L) x L
         = insertAt p x L" by blast
  have c: "\<not> (\<not> truthy (Some k) \<or> the (Some k) > int (length (controlIndices L zone col)))"
    using k1 k2 by (simp add: truthy_def controlIndices_sort)
  have "insertControl L a zone col (Some k) x = renumber zone col 1 (insertAt p x L)"
    using t c js p(2) by (simp add: insertControl_def Let_def)
  then show ?thesis using p(1) renumber_insertAt [OF w] by auto
qed

text \<open>
  Where the new control goes in an occupied column with \<open>n\<close> controls: for an order that
  is unset, zero or greater than \<open>n\<close>, right after the first control of the column that
  has the highest control index; for an order between 1 and \<open>n\<close>, right in front of the
  first control of the column whose control index is the one at rank \<open>order\<close> of the
  sorted control indices.
\<close>

lemma order_placement:
  assumes "resolveColumn L zone columnOpt = Inr a"
    and "truthy (controlType (L ! a))"
  shows
    "((orderOpt = None \<or> orderOpt = Some 0
        \<or> (\<exists>k. orderOpt = Some k \<and> k > int (length (columnIndices L zone (orElse columnOpt 1)))))
      \<longrightarrow> (\<exists>p. firstAt (hasControlIndex zone (orElse columnOpt 1)
                          (Some (Max (set (columnIndices L zone (orElse columnOpt 1)))))) L p
               \<and> insertControl L a zone (orElse columnOpt 1) orderOpt
                    (webPartControl (L ! a) wp)
                  = placedAt (Suc p) (webPartControl (L ! a) wp) zone (orElse columnOpt 1) L))
     \<and> ((\<exists>k. orderOpt = Some k \<and> 1 \<le> k
               \<and> k \<le> int (length (columnIndices L zone (orElse columnOpt 1))))
      \<longrightarrow> (\<exists>p. firstAt (hasControlIndex zone (orElse columnOpt 1)
                          (Some (sort (columnIndices L zone (orElse columnOpt 1))
                                   ! nat (the orderOpt - 1)))) L p
               \<and> insertControl L a zone (orElse columnOpt 1) orderOpt
                    (webPartControl (L ! a) wp)
                  = placedAt p (webPartControl (L ! a) wp) zone (orElse columnOpt 1) L))"
proof -
  let ?col = "orElse columnOpt 1"
  let ?wpc = "webPartControl (L ! a) wp"
  have "inColumn zone ?col (L ! a)" using assms(1) by (rule resolveColumn_anchor)
  then have w: "inColumn zone ?col ?wpc" by (rule inColumn_webPartControl)
  have ne: "columnIndices L zone ?col \<noteq> []" using assms(1) by (rule anchor_columnIndices)
  have A: "(orderOpt = None \<or> orderOpt = Some 0
        \<or> (\<exists>k. orderOpt = Some k \<and> k > int (length (columnIndices L zone ?col))))
      \<longrightarrow> (\<exists>p. firstAt (hasControlIndex zone ?col
                          (Some (Max (set (columnIndices L zone ?col))))) L p
               \<and> insertControl L a zone ?col orderOpt ?wpc = placedAt (Suc p) ?wpc zone ?col L)"
  proof
    assume "orderOpt = None \<or> orderOpt = Some 0
        \<or> (\<exists>k. orderOpt = Some k \<and> k > int (length (columnIndices L zone ?col)))"
    then have "\<not> truthy orderOpt \<or> the orderOpt > int (length (columnIndices L zone ?col))"
      by (auto simp: truthy_def)
    then show "\<exists>p. firstAt (hasControlIndex zone ?col
                          (Some (Max (set (columnIndices L zone ?col))))) L p
               \<and> insertControl L a zone ?col orderOpt ?wpc = placedAt (Suc p) ?wpc zone ?col L"
      by (rule insertControl_append [OF assms(2) w ne])
  qed
  have B: "(\<exists>k. orderOpt = Some k \<and> 1 \<le> k \<and> k \<le> int (length (columnIndices L zone ?col)))
      \<longrightarrow> (\<exists>p. firstAt (hasControlIndex zone ?col
                          (Some (sort (columnIndices L zone ?col) ! nat (the orderOpt - 1)))) L p
               \<and> insertControl L a zone ?col orderOpt ?wpc = placedAt p ?wpc zone ?col L)"
  proof
    assume "\<exists>k. orderOpt = Some k \<and> 1 \<le> k \<and> k \<le> int (length (columnIndices L zone ?col))"
    then obtain k where k: "orderOpt = Some k" "1 \<le> k"
        "k \<le> int (length (columnIndices L zone ?col))" by blast
    show "\<exists>p. firstAt (hasControlIndex zone ?col
                          (Some (sort (columnIndices L zone ?col) ! nat (the orderOpt - 1)))) L p
               \<and> insertControl L a zone ?col orderOpt ?wpc = placedAt p ?wpc zone ?col L"
      using insertControl_before [OF assms(2) w k(2) k(3)] k(1) by simp
  qed
  show ?thesis using A B by (rule conjI)
qed

lemma order_zero_unset:
  "insertControl L a zone col (Some 0) x = insertControl L a zone col None x"
  by (simp add: insertControl_def truthy_def)

text \<open>
  Claim C2. In an occupied column (the anchor has a control type), for an order that is
  unset or at least 1 (orders count from 1): when the order is unset or greater than the
  number of controls of the column, the new control is put right after a control of the
  column with the highest control index; otherwise it is put right in front of a control
  of the column whose control index is the one at rank \<open>order\<close> of the sorted control
  indices. The column is then numbered from 1 in the order of the layout.
\<close>

theorem order_rule_holds:
  assumes "resolveColumn L zone columnOpt = Inr a"
    and "truthy (controlType (L ! a))"
    and "orderOpt = None \<or> (\<exists>k. orderOpt = Some k \<and> 1 \<le> k)"
  shows "orderRule L zone (orElse columnOpt 1) orderOpt (webPartControl (L ! a) wp)
           (insertControl L a zone (orElse columnOpt 1) orderOpt (webPartControl (L ! a) wp))"
proof -
  let ?col = "orElse columnOpt 1"
  let ?w = "webPartControl (L ! a) wp"
  let ?R = "insertControl L a zone ?col orderOpt ?w"
  let ?cis = "columnIndices L zone ?col"
  show ?thesis
  proof (cases "orderOpt = None \<or> the orderOpt > int (length ?cis)")
    case True
    then have "orderOpt = None \<or> orderOpt = Some 0
        \<or> (\<exists>k. orderOpt = Some k \<and> k > int (length ?cis))"
      by (cases orderOpt) auto
    then obtain p where p: "firstAt (hasControlIndex zone ?col (Some (Max (set ?cis)))) L p"
        "?R = placedAt (Suc p) ?w zone ?col L"
      using order_placement [OF assms(1,2), of orderOpt wp] by blast
    have "p \<in> set [0..<length L]" using p(1) by (simp add: firstAt_def)
    moreover have "hasControlIndex zone ?col (Some (Max (set ?cis))) (L ! p)"
      using p(1) by (simp add: firstAt_def)
    ultimately have "list_ex (\<lambda>p. hasControlIndex zone ?col (Some (Max (set ?cis))) (L ! p)
                    \<and> ?R = placedAt (Suc p) ?w zone ?col L) [0..<length L]"
      using p(2) unfolding list_ex_iff by blast
    then show ?thesis using True by (simp add: orderRule_def Let_def)
  next
    case False
    then obtain k where k: "orderOpt = Some k" "k \<le> int (length ?cis)"
      by (cases orderOpt) auto
    have k1: "1 \<le> k" using assms(3) k(1) by auto
    have "\<exists>k. orderOpt = Some k \<and> 1 \<le> k \<and> k \<le> int (length ?cis)"
      using k k1 by blast
    then obtain p where p: "firstAt (hasControlIndex zone ?col
                          (Some (sort ?cis ! nat (the orderOpt - 1)))) L p"
        "?R = placedAt p ?w zone ?col L"
      using order_placement [OF assms(1,2), of orderOpt wp] by blast
    have j: "jsNth (sort ?cis) (the orderOpt - 1) = Some (sort ?cis ! nat (the orderOpt - 1))"
      using k k1 by (simp add: jsNth_def)
    have "p \<in> set [0..<length L]" using p(1) by (simp add: firstAt_def)
    moreover have "hasControlIndex zone ?col (jsNth (sort ?cis) (the orderOpt - 1)) (L ! p)"
      using p(1) j by (simp add: firstAt_def)
    ultimately have "list_ex (\<lambda>p. hasControlIndex zone ?col
                          (jsNth (sort ?cis) (the orderOpt - 1)) (L ! p)
                    \<and> ?R = placedAt p ?w zone ?col L) [0..<length L]"
      using p(2) unfolding list_ex_iff by blast
    then show ?thesis using False k(1) by (simp add: orderRule_def Let_def)
  qed
qed

text \<open>The scenario of claim C2: the column holds the controls \<open>A\<close> and \<open>B\<close> with the
  control indices 1 and 2. With order 1 the new control comes first and gets index 1,
  \<open>A\<close> gets 2 and \<open>B\<close> gets 3; with no order the new control comes after \<open>B\<close> and gets
  index 3.\<close>

theorem order_rule_holds_witness:
  "resolveColumn
     (exampleControl (Some 3) 1 1 1 \<lparr> ctlId := Some (JStr ''A'') \<rparr>
      # exampleControl (Some 3) 1 1 2 \<lparr> ctlId := Some (JStr ''B'') \<rparr>
      # defaultCanvasContent) (Some 1) None = Inr 0
   \<and> truthy (controlType
       ((exampleControl (Some 3) 1 1 1 \<lparr> ctlId := Some (JStr ''A'') \<rparr>
         # exampleControl (Some 3) 1 1 2 \<lparr> ctlId := Some (JStr ''B'') \<rparr>
         # defaultCanvasContent) ! 0))
   \<and> orderRule
       (exampleControl (Some 3) 1 1 1 \<lparr> ctlId := Some (JStr ''A'') \<rparr>
        # exampleControl (Some 3) 1 1 2 \<lparr> ctlId := Some (JStr ''B'') \<rparr>
        # defaultCanvasContent) (Some 1) 1 (Some 1)
       (webPartControl (exampleControl (Some 3) 1 1 1 \<lparr> ctlId := Some (JStr ''A'') \<rparr>)
          exampleWebPart)
       (setControlIndex 1
         (webPartControl (exampleControl (Some 3) 1 1 1 \<lparr> ctlId := Some (JStr ''A'') \<rparr>)
            exampleWebPart)
        # exampleControl (Some 3) 1 1 2 \<lparr> ctlId := Some (JStr ''A'') \<rparr>
        # exampleControl (Some 3) 1 1 3 \<lparr> ctlId := Some (JStr ''B'') \<rparr>
        # defaultCanvasContent)
   \<and> orderRule
       (exampleControl (Some 3) 1 1 1 \<lparr> ctlId := Some (JStr ''A'') \<rparr>
        # exampleControl (Some 3) 1 1 2 \<lparr> ctlId := Some (JStr ''B'') \<rparr>
        # defaultCanvasContent) (Some 1) 1 None
       (webPartControl (exampleControl (Some 3) 1 1 1 \<lparr> ctlId := Some (JStr ''A'') \<rparr>)
          exampleWebPart)
       (exampleControl (Some 3) 1 1 1 \<lparr> ctlId := Some (JStr ''A'') \<rparr>
        # exampleControl (Some 3) 1 1 2 \<lparr> ctlId := Some (JStr ''B'') \<rparr>
        # setControlIndex 3
          (webPartControl (exampleControl (Some 3) 1 1 1 \<lparr> ctlId := Some (JStr ''A'') \<rparr>)
             exampleWebPart)
        # defaultCanvasContent)"
proof -
  let ?A = "exampleControl (Some 3) 1 1 1 \<lparr> ctlId := Some (JStr ''A'') \<rparr>"
  let ?B = "exampleControl (Some 3) 1 1 2 \<lparr> ctlId := Some (JStr ''B'') \<rparr>"
  let ?L = "?A # ?B # defaultCanvasContent"
  let ?w = "webPartControl ?A exampleWebPart"
  have r: "resolveColumn ?L (Some 1) None = Inr 0"
    by (simp add: resolveColumn_unfold orElse_def inColumn_def exampleControl_def)
  have t: "truthy (controlType (?L ! 0))"
    by (simp add: truthy_def exampleControl_def)
  have o: "orElse None 1 = 1" by (simp add: orElse_def)
  have w: "webPartControl (?L ! 0) exampleWebPart = ?w" by simp
  have a: "insertControl ?L 0 (Some 1) 1 (Some 1) ?w
           = setControlIndex 1 ?w
             # exampleControl (Some 3) 1 1 2 \<lparr> ctlId := Some (JStr ''A'') \<rparr>
             # exampleControl (Some 3) 1 1 3 \<lparr> ctlId := Some (JStr ''B'') \<rparr>
             # defaultCanvasContent"
    by code_simp
  have b: "insertControl ?L 0 (Some 1) 1 None ?w
           = ?A # ?B # setControlIndex 3 ?w # defaultCanvasContent"
    by code_simp
  have o1: "Some (1::int) = None \<or> (\<exists>k. Some (1::int) = Some k \<and> 1 \<le> k)" by simp
  have o2: "(None :: int option) = None \<or> (\<exists>k. (None :: int option) = Some k \<and> 1 \<le> k)"
    by simp
  have c: "orderRule ?L (Some 1) 1 (Some 1) ?w (insertControl ?L 0 (Some 1) 1 (Some 1) ?w)"
    using order_rule_holds [OF r t o1, of exampleWebPart] unfolding o w .
  have d: "orderRule ?L (Some 1) 1 None ?w (insertControl ?L 0 (Some 1) 1 None ?w)"
    using order_rule_holds [OF r t o2, of exampleWebPart] unfolding o w .
  show ?thesis using r t c d unfolding a b by (intro conjI)
qed

text \<open>
  Claim C6, at an input where the column option is not given and the last section has no
  column 1: the lookup of column 1 finds no control and the rejection carries
  \<open>args.options.column\<close>, which is \<open>undefined\<close>, so the message reads
  \<open>Invalid column 'undefined'\<close>. With the column given as 1 the same lookup fails and the
  message names 1.
\<close>

theorem invalid_column_names_option:
  "placeWebPart (exampleControl None 1 2 1 # defaultCanvasContent) None None None exampleWebPart
     = Inl (InvalidColumn None)
   \<and> placeWebPart (exampleControl None 1 2 1 # defaultCanvasContent) None (Some 1) None
       exampleWebPart
     = Inl (InvalidColumn (Some 1))
   \<and> placeWebPart [] None None None exampleWebPart = Inl (InvalidColumn None)"
  by code_simp

section \<open>The requests of an invocation\<close>

lemma strIndexOfFrom_sublist:
  "0 \<le> i \<Longrightarrow> strIndexOfFrom needle s i < 0 \<longleftrightarrow> \<not> sublist needle s"
proof (induction s arbitrary: i)
  case Nil
  then show ?case by auto
next
  case (Cons c cs)
  show ?case
  proof (cases "prefix needle (c # cs)")
    case True
    then show ?thesis using Cons.prems by (auto simp: sublist_Cons_right)
  next
    case False
    have "0 \<le> i + 1" using Cons.prems by simp
    from Cons.IH [OF this] False show ?thesis by (simp add: sublist_Cons_right)
  qed
qed

lemma strIndexOf_sublist: "strIndexOf s needle < 0 \<longleftrightarrow> \<not> sublist needle s"
  by (simp add: strIndexOf_def strIndexOfFrom_sublist)

lemma pageFullName_sublist:
  "pageFullName name = (if sublist ''.aspx'' name then name else name @ ''.aspx'')"
  by (simp only: pageFullName_def strIndexOf_sublist if_not_P if_P split: if_split) auto

lemma extendLoop_error:
  "snd (extendLoop ext kvs t) = Some e \<Longrightarrow> e = TypeError \<or> (\<exists>m. e = Thrown m)"
proof (induction kvs arbitrary: t)
  case Nil
  then show ?case by simp
next
  case (Cons kv kvs)
  obtain k v where kv: "kv = (k, v)" by (cases kv)
  show ?case
  proof (cases t)
    case None
    then show ?thesis using Cons.prems kv by simp
  next
    case (Some tv)
    show ?thesis
    proof (cases "setProperty ext tv k v")
      case (Inl msg)
      then show ?thesis using Cons.prems kv Some by auto
    next
      case (Inr tv')
      then have "snd (extendLoop ext kvs (Some tv')) = Some e"
        using Cons.prems kv Some by simp
      then show ?thesis by (rule Cons.IH)
    qed
  qed
qed

lemma extend_error:
  "snd (extend ext t source) = Some e \<Longrightarrow> e = TypeError \<or> (\<exists>m. e = Thrown m)"
  by (cases "ownProperties source") (auto simp: extend_def dest: extendLoop_error)

lemma setWebPartProperties_error:
  assumes "setWebPartProperties ext wp opts = Inl e"
  shows "e = TypeError \<or> (\<exists>m. e = SyntaxError m) \<or> (\<exists>m. e = Thrown m)"
proof (cases "truthyStr (optWebPartData opts)")
  case False
  then show ?thesis using assms by (simp add: setWebPartProperties_def mergeProperties_def Let_def)
next
  case True
  show ?thesis
  proof (cases "JSON_parse ext (the (optWebPartData opts))")
    case (Inl msg)
    then show ?thesis using assms True by (auto simp: setWebPartProperties_def mergeProperties_def Let_def)
  next
    case (Inr data)
    define wp1 where "wp1 = mergeProperties ext wp opts"
    obtain t err where x: "extend ext (Some (wpData wp1)) data = (t, err)"
      by (cases "extend ext (Some (wpData wp1)) data")
    have r: "setWebPartProperties ext wp opts =
          (case (t, err) of
             (_, Some e) \<Rightarrow> Inl e
           | (None, None) \<Rightarrow> Inl TypeError
           | (Some t, None) \<Rightarrow>
               Inr (wp1\<lparr> wpData := t, wpId := getProperty t ''instanceId'' \<rparr>))"
      using True Inr x unfolding wp1_def by (simp add: setWebPartProperties_def Let_def)
    show ?thesis
    proof (cases err)
      case None
      then show ?thesis using assms r by (cases t) simp_all
    next
      case (Some e')
      then have "e = e'" using assms r by (cases t) simp_all
      moreover have "snd (extend ext (Some (wpData wp1)) data) = Some e'" using x Some by simp
      ultimately show ?thesis using extend_error by blast
    qed
  qed
qed

lemma editAndSave_rejected:
  assumes "snd (editAndSave ext env opts L wp) = Inl e"
    and "(\<exists>n. e = InvalidSection n) \<or> (\<exists>n. e = InvalidColumn n)"
  shows "fst (editAndSave ext env opts L wp) = []"
  using assms
  by (auto simp: editAndSave_def split: sum.splits dest: setWebPartProperties_error)

lemma resolveWebPart_rejected:
  assumes "snd (resolveWebPart ext env opts L) = Inl e"
    and "(\<exists>n. e = InvalidSection n) \<or> (\<exists>n. e = InvalidColumn n)"
  shows "fst (resolveWebPart ext env opts L) = [HttpGet (webPartsUrl (webUrl opts))]"
proof (cases "webPartResponse env")
  case (Inl r)
  then show ?thesis using assms by (auto simp: resolveWebPart_def)
next
  case (Inr wp)
  then have "snd (editAndSave ext env opts L wp) = Inl e"
    using assms(1) by (simp add: resolveWebPart_def split_beta)
  from editAndSave_rejected [OF this assms(2)] Inr show ?thesis
    by (simp add: resolveWebPart_def split_beta)
qed

lemma isSavePage_simps [simp]:
  "isSavePage (HttpGet u) = False" "isSavePage (HttpPost u None) = False"
  "isSavePage (HttpPost u (Some L)) = True"
  by (simp_all add: isSavePage_def)

lemma example_rejected:
  "commandAction exampleExternals exampleResponses (exampleOptions \<lparr> optSection := Some 5 \<rparr>)
     = ([HttpGet (pageUrl exampleExternals (webUrl exampleOptions) ''home.aspx''),
         HttpGet (webPartsUrl (webUrl exampleOptions))],
        Inl (InvalidSection 5))"
  by (simp add: commandAction_def parseLayout_def exampleResponses_def exampleOptions_def
      truthyStr_def resolveWebPart_def editAndSave_def setWebPartProperties_def mergeProperties_def placeWebPart_def
      ensureDefaultSection_def defaultCanvasContent_def resolveSection_unfold orElse_def
      zoneIndices_default pageFullName_def strIndexOf_def prefix_code)

lemma commandAction_rejected_requests:
  assumes "snd (commandAction ext env opts) = Inl e"
    and "(\<exists>n. e = InvalidSection n) \<or> (\<exists>n. e = InvalidColumn n)"
  shows "\<exists>cc co. pageResponse env = Inr (cc, co)
           \<and> fst (commandAction ext env opts)
               = HttpGet (pageUrl ext (webUrl opts) (pageFullName (pageName opts)))
                 # (if co then []
                    else [HttpPost (checkoutUrl ext (webUrl opts)
                                      (pageFullName (pageName opts))) None])
                 @ [HttpGet (webPartsUrl (webUrl opts))]"
proof (cases "pageResponse env")
  case (Inl r)
  then have "snd (commandAction ext env opts) = Inl (RequestFailed r)"
    by (simp add: commandAction_def)
  then show ?thesis using assms by auto
next
  case (Inr pr)
  obtain cc1 checkedOut where pr: "pr = (cc1, checkedOut)" by (cases pr)
  show ?thesis
  proof (cases "parseLayout ext cc1")
    case (Inl msg)
    then have "snd (commandAction ext env opts) = Inl (SyntaxError msg)"
      using Inr pr by (simp add: commandAction_def Let_def)
    then show ?thesis using assms by auto
  next
    case parsed: (Inr L)
    show ?thesis
    proof (cases checkedOut)
      case True
      then have c: "commandAction ext env opts =
          (HttpGet (pageUrl ext (webUrl opts) (pageFullName (pageName opts)))
             # fst (resolveWebPart ext env opts L), snd (resolveWebPart ext env opts L))"
        using Inr pr parsed by (simp add: commandAction_def Let_def split_beta)
      then have "snd (resolveWebPart ext env opts L) = Inl e" using assms(1) by simp
      from resolveWebPart_rejected [OF this assms(2)] c True Inr pr show ?thesis
        by (intro exI [of _ cc1] exI [of _ True]) simp
    next
      case False
      show ?thesis
      proof (cases "checkoutResponse env")
        case (Inl r)
        then have "snd (commandAction ext env opts) = Inl (RequestFailed r)"
          using Inr pr parsed False by (simp add: commandAction_def Let_def)
        then show ?thesis using assms by auto
      next
        case co: (Inr u)
        then have c: "commandAction ext env opts =
          (HttpGet (pageUrl ext (webUrl opts) (pageFullName (pageName opts)))
             # HttpPost (checkoutUrl ext (webUrl opts) (pageFullName (pageName opts))) None
             # fst (resolveWebPart ext env opts L), snd (resolveWebPart ext env opts L))"
          using Inr pr parsed False by (simp add: commandAction_def Let_def split_beta)
        then have "snd (resolveWebPart ext env opts L) = Inl e" using assms(1) by simp
        from resolveWebPart_rejected [OF this assms(2)] c False Inr pr show ?thesis
          by (intro exI [of _ cc1] exI [of _ False]) simp
      qed
    qed
  qed
qed

text \<open>
  Claim C7, as the code has it. When the editor rejects the placement (the section or the
  column is invalid), the last callback returns without issuing a request. An invocation
  that ends with \<open>InvalidSection\<close> or \<open>InvalidColumn\<close> has issued the page request, the
  checkout request when the page was not checked out to the current user, and the web part
  request, and no \<open>savepage\<close> request: the stored layout is the one before the invocation,
  and the page state as a whole is unchanged when the page was checked out already, while
  otherwise the page has been checked out.
\<close>

theorem rejection_saves_nothing:
  "(setWebPartProperties ext wp opts = Inr wp'
      \<and> placeWebPart L (optSection opts) (optColumn opts) (optOrder opts) wp' = Inl e
      \<longrightarrow> editAndSave ext env opts L wp = ([], Inl e))
   \<and> (snd (commandAction ext env opts) = Inl e'
        \<and> ((\<exists>n. e' = InvalidSection n) \<or> (\<exists>n. e' = InvalidColumn n))
      \<longrightarrow> \<not> list_ex isSavePage (fst (commandAction ext env opts))
          \<and> storedLayout (pageAfter (fst (commandAction ext env opts)) s) = storedLayout s
          \<and> (\<exists>cc co. pageResponse env = Inr (cc, co)
                \<and> fst (commandAction ext env opts)
                    = HttpGet (pageUrl ext (webUrl opts) (pageFullName (pageName opts)))
                      # (if co then []
                         else [HttpPost (checkoutUrl ext (webUrl opts)
                                           (pageFullName (pageName opts))) None])
                      @ [HttpGet (webPartsUrl (webUrl opts))]
                \<and> pageAfter (fst (commandAction ext env opts)) s
                    = (if co then s else s \<lparr> pageCheckedOut := True \<rparr>)))"
proof -
  have a: "setWebPartProperties ext wp opts = Inr wp'
      \<and> placeWebPart L (optSection opts) (optColumn opts) (optOrder opts) wp' = Inl e
      \<longrightarrow> editAndSave ext env opts L wp = ([], Inl e)"
    by (simp add: editAndSave_def)
  have b: "snd (commandAction ext env opts) = Inl e'
        \<and> ((\<exists>n. e' = InvalidSection n) \<or> (\<exists>n. e' = InvalidColumn n))
      \<longrightarrow> \<not> list_ex isSavePage (fst (commandAction ext env opts))
          \<and> storedLayout (pageAfter (fst (commandAction ext env opts)) s) = storedLayout s
          \<and> (\<exists>cc co. pageResponse env = Inr (cc, co)
                \<and> fst (commandAction ext env opts)
                    = HttpGet (pageUrl ext (webUrl opts) (pageFullName (pageName opts)))
                      # (if co then []
                         else [HttpPost (checkoutUrl ext (webUrl opts)
                                           (pageFullName (pageName opts))) None])
                      @ [HttpGet (webPartsUrl (webUrl opts))]
                \<and> pageAfter (fst (commandAction ext env opts)) s
                    = (if co then s else s \<lparr> pageCheckedOut := True \<rparr>))"
  proof
    assume h: "snd (commandAction ext env opts) = Inl e'
        \<and> ((\<exists>n. e' = InvalidSection n) \<or> (\<exists>n. e' = InvalidColumn n))"
    then obtain cc co where r: "pageResponse env = Inr (cc, co)"
        "fst (commandAction ext env opts)
          = HttpGet (pageUrl ext (webUrl opts) (pageFullName (pageName opts)))
            # (if co then []
               else [HttpPost (checkoutUrl ext (webUrl opts)
                                 (pageFullName (pageName opts))) None])
            @ [HttpGet (webPartsUrl (webUrl opts))]"
      using commandAction_rejected_requests [of ext env opts e'] by blast
    have n: "\<not> list_ex isSavePage (fst (commandAction ext env opts))"
      unfolding r(2) by simp
    have p: "pageAfter (fst (commandAction ext env opts)) s
             = (if co then s else s \<lparr> pageCheckedOut := True \<rparr>)"
      unfolding r(2) by simp
    then have l: "storedLayout (pageAfter (fst (commandAction ext env opts)) s) = storedLayout s"
      by simp
    show "\<not> list_ex isSavePage (fst (commandAction ext env opts))
          \<and> storedLayout (pageAfter (fst (commandAction ext env opts)) s) = storedLayout s
          \<and> (\<exists>cc co. pageResponse env = Inr (cc, co)
                \<and> fst (commandAction ext env opts)
                    = HttpGet (pageUrl ext (webUrl opts) (pageFullName (pageName opts)))
                      # (if co then []
                         else [HttpPost (checkoutUrl ext (webUrl opts)
                                           (pageFullName (pageName opts))) None])
                      @ [HttpGet (webPartsUrl (webUrl opts))]
                \<and> pageAfter (fst (commandAction ext env opts)) s
                    = (if co then s else s \<lparr> pageCheckedOut := True \<rparr>))"
      using n l r p by blast
  qed
  show ?thesis using a b by (rule conjI)
qed

lemma example_rejected_checkout:
  "commandAction exampleExternals (exampleResponses \<lparr> pageResponse := Inr (None, False) \<rparr>)
     (exampleOptions \<lparr> optSection := Some 5 \<rparr>)
     = ([HttpGet (pageUrl exampleExternals (webUrl exampleOptions) ''home.aspx''),
         HttpPost (checkoutUrl exampleExternals (webUrl exampleOptions) ''home.aspx'') None,
         HttpGet (webPartsUrl (webUrl exampleOptions))],
        Inl (InvalidSection 5))"
  by (simp add: commandAction_def parseLayout_def exampleResponses_def exampleOptions_def
      truthyStr_def resolveWebPart_def editAndSave_def setWebPartProperties_def
      mergeProperties_def placeWebPart_def
      ensureDefaultSection_def defaultCanvasContent_def resolveSection_unfold orElse_def
      zoneIndices_default pageFullName_def strIndexOf_def prefix_code Let_def)

text \<open>A page that is checked out already and a page that is not, both with the section 5
  asked for on an empty page: no save request, the stored layout stays, and only the second
  page changes, by being checked out.\<close>

theorem rejection_saves_nothing_witness:
  "snd (commandAction exampleExternals exampleResponses
          (exampleOptions \<lparr> optSection := Some 5 \<rparr>)) = Inl (InvalidSection 5)
   \<and> \<not> list_ex isSavePage
         (fst (commandAction exampleExternals exampleResponses
                 (exampleOptions \<lparr> optSection := Some 5 \<rparr>)))
   \<and> storedLayout
        (pageAfter (fst (commandAction exampleExternals exampleResponses
                           (exampleOptions \<lparr> optSection := Some 5 \<rparr>)))
           \<lparr> storedLayout = [], pageCheckedOut = True \<rparr>) = []
   \<and> snd (commandAction exampleExternals
            (exampleResponses \<lparr> pageResponse := Inr (None, False) \<rparr>)
            (exampleOptions \<lparr> optSection := Some 5 \<rparr>)) = Inl (InvalidSection 5)
   \<and> \<not> list_ex isSavePage
         (fst (commandAction exampleExternals
                 (exampleResponses \<lparr> pageResponse := Inr (None, False) \<rparr>)
                 (exampleOptions \<lparr> optSection := Some 5 \<rparr>)))
   \<and> setWebPartProperties exampleExternals exampleWebPart
        (exampleOptions \<lparr> optSection := Some 5 \<rparr>) = Inr exampleWebPart
   \<and> placeWebPart defaultCanvasContent (Some 5) None None exampleWebPart
        = Inl (InvalidSection 5)
   \<and> editAndSave exampleExternals exampleResponses (exampleOptions \<lparr> optSection := Some 5 \<rparr>)
        defaultCanvasContent exampleWebPart = ([], Inl (InvalidSection 5))"
proof -
  let ?o = "exampleOptions \<lparr> optSection := Some 5 \<rparr>"
  let ?e2 = "exampleResponses \<lparr> pageResponse := Inr (None, False) \<rparr>"
  let ?s = "\<lparr> storedLayout = [], pageCheckedOut = True \<rparr>"
  have s: "snd (commandAction exampleExternals exampleResponses ?o) = Inl (InvalidSection 5)"
    by (simp add: example_rejected)
  have s2: "snd (commandAction exampleExternals ?e2 ?o) = Inl (InvalidSection 5)"
    by (simp add: example_rejected_checkout)
  have i: "(\<exists>n. InvalidSection 5 = InvalidSection n) \<or> (\<exists>n. InvalidSection 5 = InvalidColumn n)"
    by simp
  have w: "setWebPartProperties exampleExternals exampleWebPart ?o = Inr exampleWebPart"
    by (simp add: setWebPartProperties_def mergeProperties_def exampleOptions_def truthyStr_def)
  have p: "placeWebPart defaultCanvasContent (optSection ?o) (optColumn ?o) (optOrder ?o)
             exampleWebPart = Inl (InvalidSection 5)"
    by (simp add: placeWebPart_def exampleOptions_def
      ensureDefaultSection_def defaultCanvasContent_def resolveSection_unfold orElse_def
      zoneIndices_default)
  have n: "\<not> list_ex isSavePage (fst (commandAction exampleExternals exampleResponses ?o))"
    and l: "storedLayout (pageAfter (fst (commandAction exampleExternals exampleResponses ?o)) ?s)
            = storedLayout ?s"
    using rejection_saves_nothing [of exampleExternals exampleWebPart ?o exampleWebPart
        defaultCanvasContent "InvalidSection 5" exampleResponses "InvalidSection 5" ?s] s i
    by blast+
  have n2: "\<not> list_ex isSavePage (fst (commandAction exampleExternals ?e2 ?o))"
    using rejection_saves_nothing [of exampleExternals exampleWebPart ?o exampleWebPart
        defaultCanvasContent "InvalidSection 5" ?e2 "InvalidSection 5" ?s] s2 i
    by blast
  have e: "editAndSave exampleExternals exampleResponses ?o defaultCanvasContent exampleWebPart
           = ([], Inl (InvalidSection 5))"
    using rejection_saves_nothing [of exampleExternals exampleWebPart ?o exampleWebPart
        defaultCanvasContent "InvalidSection 5" exampleResponses "InvalidSection 5" ?s] w p
    by blast
  have p': "placeWebPart defaultCanvasContent (Some 5) None None exampleWebPart
        = Inl (InvalidSection 5)"
    using p by (simp add: exampleOptions_def)
  have l': "storedLayout (pageAfter (fst (commandAction exampleExternals exampleResponses ?o)) ?s)
            = []"
    using l by simp
  show ?thesis using s n l' s2 n2 w p' e by (intro conjI)
qed

text \<open>
  The claim as stated fails when the page is not checked out to the current user: the
  invocation ends with the rejected section, no layout has been saved, but the checkout
  request has been issued before the editor ran, and the page is left checked out.
\<close>

theorem checkout_before_rejection_counterexample:
  "commandAction exampleExternals (exampleResponses \<lparr> pageResponse := Inr (None, False) \<rparr>)
     (exampleOptions \<lparr> optSection := Some 5 \<rparr>)
     = ([HttpGet (pageUrl exampleExternals (webUrl exampleOptions) ''home.aspx''),
         HttpPost (checkoutUrl exampleExternals (webUrl exampleOptions) ''home.aspx'') None,
         HttpGet (webPartsUrl (webUrl exampleOptions))],
        Inl (InvalidSection 5))
   \<and> pageAfter
        (fst (commandAction exampleExternals
                (exampleResponses \<lparr> pageResponse := Inr (None, False) \<rparr>)
                (exampleOptions \<lparr> optSection := Some 5 \<rparr>)))
        \<lparr> storedLayout = [], pageCheckedOut = False \<rparr>
      = \<lparr> storedLayout = [], pageCheckedOut = True \<rparr>
   \<and> pageAfter
        (fst (commandAction exampleExternals
                (exampleResponses \<lparr> pageResponse := Inr (None, False) \<rparr>)
                (exampleOptions \<lparr> optSection := Some 5 \<rparr>)))
        \<lparr> storedLayout = [], pageCheckedOut = False \<rparr>
      \<noteq> \<lparr> storedLayout = [], pageCheckedOut = False \<rparr>"
  by (simp add: example_rejected_checkout)

lemma editAndSave_requests:
  "set (fst (editAndSave ext env opts L wp))
     \<subseteq> range (\<lambda>L'. HttpPost (savepageUrl ext (webUrl opts) (pageFullName (pageName opts)))
                     (Some L'))"
  by (auto simp: editAndSave_def split: sum.splits)

lemma resolveWebPart_requests:
  "set (fst (resolveWebPart ext env opts L))
     \<subseteq> {HttpGet (webPartsUrl (webUrl opts))}
       \<union> range (\<lambda>L'. HttpPost (savepageUrl ext (webUrl opts) (pageFullName (pageName opts)))
                       (Some L'))"
proof (cases "webPartResponse env")
  case (Inl r)
  then show ?thesis by (simp add: resolveWebPart_def)
next
  case (Inr wp)
  then have "fst (resolveWebPart ext env opts L)
             = HttpGet (webPartsUrl (webUrl opts)) # fst (editAndSave ext env opts L wp)"
    by (simp add: resolveWebPart_def split_beta)
  then show ?thesis using editAndSave_requests [of ext env opts L wp] by auto
qed

lemma commandAction_requests:
  "set (fst (commandAction ext env opts))
     \<subseteq> {HttpGet (pageUrl ext (webUrl opts) (pageFullName (pageName opts))),
        HttpPost (checkoutUrl ext (webUrl opts) (pageFullName (pageName opts))) None,
        HttpGet (webPartsUrl (webUrl opts))}
       \<union> range (\<lambda>L'. HttpPost (savepageUrl ext (webUrl opts) (pageFullName (pageName opts)))
                       (Some L'))"
proof (cases "pageResponse env")
  case (Inl r)
  then show ?thesis by (simp add: commandAction_def)
next
  case (Inr pr)
  obtain cc1 checkedOut where pr: "pr = (cc1, checkedOut)" by (cases pr)
  show ?thesis
  proof (cases "parseLayout ext cc1")
    case (Inl msg)
    then show ?thesis using Inr pr by (simp add: commandAction_def Let_def)
  next
    case parsed: (Inr L)
    show ?thesis
    proof (cases checkedOut)
      case True
      then have "fst (commandAction ext env opts) =
          HttpGet (pageUrl ext (webUrl opts) (pageFullName (pageName opts)))
             # fst (resolveWebPart ext env opts L)"
        using Inr pr parsed by (simp add: commandAction_def Let_def split_beta)
      then show ?thesis using resolveWebPart_requests [of ext env opts L] by auto
    next
      case False
      show ?thesis
      proof (cases "checkoutResponse env")
        case (Inl r)
        then show ?thesis using Inr pr parsed False by (simp add: commandAction_def Let_def)
      next
        case co: (Inr u)
        then have "fst (commandAction ext env opts) =
          HttpGet (pageUrl ext (webUrl opts) (pageFullName (pageName opts)))
             # HttpPost (checkoutUrl ext (webUrl opts) (pageFullName (pageName opts))) None
             # fst (resolveWebPart ext env opts L)"
          using Inr pr parsed False by (simp add: commandAction_def Let_def split_beta)
        then show ?thesis using resolveWebPart_requests [of ext env opts L] by auto
      qed
    qed
  qed
qed

lemma commandAction_first:
  "hd (fst (commandAction ext env opts))
     = HttpGet (pageUrl ext (webUrl opts) (pageFullName (pageName opts)))"
  by (simp add: commandAction_def Let_def split_beta split: sum.splits prod.splits)

text \<open>
  Claim C10. The full name of the page is the given name when \<open>.aspx\<close> occurs anywhere in
  it, and the given name followed by \<open>.aspx\<close> otherwise. The first request of every
  invocation is the page request, whose URL holds the encoded full name; every request of
  the invocation is that page request, the checkout request or a save request, each for
  the same encoded full name, or the web part request, which names no page.
\<close>

theorem page_full_name_used:
  "pageFullName name = (if sublist ''.aspx'' name then name else name @ ''.aspx'')
   \<and> hd (fst (commandAction ext env opts))
       = HttpGet (webUrl opts @ ''/_api/sitepages/pages/GetByUrl('' @ [CHR 0x27]
                  @ ''sitepages/'' @ encodeURIComponent ext (pageFullName (pageName opts))
                  @ [CHR 0x27]
                  @ '')?$select=CanvasContent1,IsPageCheckedOutToCurrentUser'')
   \<and> set (fst (commandAction ext env opts))
       \<subseteq> {HttpGet (webUrl opts @ ''/_api/sitepages/pages/GetByUrl('' @ [CHR 0x27]
                    @ ''sitepages/'' @ encodeURIComponent ext (pageFullName (pageName opts))
                    @ [CHR 0x27]
                    @ '')?$select=CanvasContent1,IsPageCheckedOutToCurrentUser''),
          HttpPost (webUrl opts @ ''/_api/sitepages/pages/GetByUrl('' @ [CHR 0x27]
                    @ ''sitepages/'' @ encodeURIComponent ext (pageFullName (pageName opts))
                    @ [CHR 0x27] @ '')/checkoutpage'') None,
          HttpGet (webUrl opts @ ''/_api/web/getclientsidewebparts()'')}
         \<union> range (\<lambda>L'. HttpPost
                    (webUrl opts @ ''/_api/sitepages/pages/GetByUrl('' @ [CHR 0x27]
                     @ ''sitepages/'' @ encodeURIComponent ext (pageFullName (pageName opts))
                     @ [CHR 0x27] @ '')/savepage'') (Some L'))"
proof -
  have a: "pageFullName name = (if sublist ''.aspx'' name then name else name @ ''.aspx'')"
    by (rule pageFullName_sublist)
  have b: "hd (fst (commandAction ext env opts))
       = HttpGet (webUrl opts @ ''/_api/sitepages/pages/GetByUrl('' @ [CHR 0x27]
                  @ ''sitepages/'' @ encodeURIComponent ext (pageFullName (pageName opts))
                  @ [CHR 0x27]
                  @ '')?$select=CanvasContent1,IsPageCheckedOutToCurrentUser'')"
    using commandAction_first [of ext env opts]
    by (simp add: pageUrl_def pageApi_def)
  have c: "set (fst (commandAction ext env opts))
       \<subseteq> {HttpGet (webUrl opts @ ''/_api/sitepages/pages/GetByUrl('' @ [CHR 0x27]
                    @ ''sitepages/'' @ encodeURIComponent ext (pageFullName (pageName opts))
                    @ [CHR 0x27]
                    @ '')?$select=CanvasContent1,IsPageCheckedOutToCurrentUser''),
          HttpPost (webUrl opts @ ''/_api/sitepages/pages/GetByUrl('' @ [CHR 0x27]
                    @ ''sitepages/'' @ encodeURIComponent ext (pageFullName (pageName opts))
                    @ [CHR 0x27] @ '')/checkoutpage'') None,
          HttpGet (webUrl opts @ ''/_api/web/getclientsidewebparts()'')}
         \<union> range (\<lambda>L'. HttpPost
                    (webUrl opts @ ''/_api/sitepages/pages/GetByUrl('' @ [CHR 0x27]
                     @ ''sitepages/'' @ encodeURIComponent ext (pageFullName (pageName opts))
                     @ [CHR 0x27] @ '')/savepage'') (Some L'))"
    using commandAction_requests [of ext env opts]
    by (simp add: pageUrl_def checkoutUrl_def savepageUrl_def pageApi_def webPartsUrl_def)
  show ?thesis using a b c by (intro conjI)
qed

text \<open>Three names and a whole invocation: a page that is not checked out, named without
  \<open>.aspx\<close>.\<close>

theorem page_full_name_used_witness:
  "pageFullName ''home'' = ''home.aspx''
   \<and> pageFullName ''home.aspx'' = ''home.aspx''
   \<and> pageFullName ''my.aspx.page'' = ''my.aspx.page''
   \<and> map (\<lambda>r. case r of HttpGet u \<Rightarrow> u | HttpPost u b \<Rightarrow> u)
        (fst (commandAction exampleExternals
                (exampleResponses \<lparr> pageResponse := Inr (None, False) \<rparr>) exampleOptions))
      = [''https://contoso.sharepoint.com/sites/team-a/_api/sitepages/pages/GetByUrl(''
           @ [CHR 0x27] @ ''sitepages/home.aspx'' @ [CHR 0x27]
           @ '')?$select=CanvasContent1,IsPageCheckedOutToCurrentUser'',
         ''https://contoso.sharepoint.com/sites/team-a/_api/sitepages/pages/GetByUrl(''
           @ [CHR 0x27] @ ''sitepages/home.aspx'' @ [CHR 0x27] @ '')/checkoutpage'',
         ''https://contoso.sharepoint.com/sites/team-a/_api/web/getclientsidewebparts()'',
         ''https://contoso.sharepoint.com/sites/team-a/_api/sitepages/pages/GetByUrl(''
           @ [CHR 0x27] @ ''sitepages/home.aspx'' @ [CHR 0x27] @ '')/savepage'']"
proof -
  have s1: "\<not> sublist ''.aspx'' ''home''" by code_simp
  have s2: "sublist ''.aspx'' ''home.aspx''" by code_simp
  have s3: "sublist ''.aspx'' ''my.aspx.page''" by code_simp
  have a: "pageFullName ''home'' = ''home.aspx''"
    using page_full_name_used [of "''home''" exampleExternals exampleResponses exampleOptions] s1
    by simp
  have b: "pageFullName ''home.aspx'' = ''home.aspx''"
    using page_full_name_used [of "''home.aspx''" exampleExternals exampleResponses
        exampleOptions] s2
    by simp
  have c: "pageFullName ''my.aspx.page'' = ''my.aspx.page''"
    using page_full_name_used [of "''my.aspx.page''" exampleExternals exampleResponses
        exampleOptions] s3
    by simp
  have n: "pageName exampleOptions = ''home''" by (simp add: exampleOptions_def)
  have d: "map (\<lambda>r. case r of HttpGet u \<Rightarrow> u | HttpPost u b \<Rightarrow> u)
        (fst (commandAction exampleExternals
                (exampleResponses \<lparr> pageResponse := Inr (None, False) \<rparr>) exampleOptions))
      = [pageUrl exampleExternals (webUrl exampleOptions) (pageFullName (pageName exampleOptions)),
         checkoutUrl exampleExternals (webUrl exampleOptions)
           (pageFullName (pageName exampleOptions)),
         webPartsUrl (webUrl exampleOptions),
         savepageUrl exampleExternals (webUrl exampleOptions)
           (pageFullName (pageName exampleOptions))]"
  proof -
    have m: "defaultCanvasContent = [hd defaultCanvasContent]"
      "position (hd defaultCanvasContent) = None"
      by (simp_all add: defaultCanvasContent_def)
    have pw: "placeWebPart defaultCanvasContent None None None exampleWebPart
              = Inr [setControlIndex 1 (webPartControl defaultSection exampleWebPart),
                     hd defaultCanvasContent]"
      using placeWebPart_single [OF m(2), of exampleWebPart] m(1) by simp
    have o: "optSection exampleOptions = None" "optColumn exampleOptions = None"
      "optOrder exampleOptions = None" "webPartProperties exampleOptions = None"
      "optWebPartData exampleOptions = None"
      by (simp_all add: exampleOptions_def)
    have sw: "setWebPartProperties exampleExternals exampleWebPart exampleOptions
              = Inr exampleWebPart"
      by (simp add: setWebPartProperties_def mergeProperties_def o truthyStr_def)
    have es: "fst (editAndSave exampleExternals env exampleOptions
                defaultCanvasContent exampleWebPart)
          = [HttpPost (savepageUrl exampleExternals (webUrl exampleOptions)
                         (pageFullName (pageName exampleOptions)))
               (Some [setControlIndex 1 (webPartControl defaultSection exampleWebPart),
                      hd defaultCanvasContent])]"
      for env by (simp add: editAndSave_def sw o pw)
    show ?thesis
      by (simp add: commandAction_def parseLayout_def exampleResponses_def truthyStr_def
          resolveWebPart_def es Let_def split_beta)
  qed
  have u: "pageUrl exampleExternals (webUrl exampleOptions) ''home.aspx''
       = ''https://contoso.sharepoint.com/sites/team-a/_api/sitepages/pages/GetByUrl(''
           @ [CHR 0x27] @ ''sitepages/home.aspx'' @ [CHR 0x27]
           @ '')?$select=CanvasContent1,IsPageCheckedOutToCurrentUser''"
    "checkoutUrl exampleExternals (webUrl exampleOptions) ''home.aspx''
       = ''https://contoso.sharepoint.com/sites/team-a/_api/sitepages/pages/GetByUrl(''
           @ [CHR 0x27] @ ''sitepages/home.aspx'' @ [CHR 0x27] @ '')/checkoutpage''"
    "webPartsUrl (webUrl exampleOptions)
       = ''https://contoso.sharepoint.com/sites/team-a/_api/web/getclientsidewebparts()''"
    "savepageUrl exampleExternals (webUrl exampleOptions) ''home.aspx''
       = ''https://contoso.sharepoint.com/sites/team-a/_api/sitepages/pages/GetByUrl(''
           @ [CHR 0x27] @ ''sitepages/home.aspx'' @ [CHR 0x27] @ '')/savepage''"
    by (simp_all add: pageUrl_def checkoutUrl_def savepageUrl_def webPartsUrl_def pageApi_def
        exampleExternals_def exampleOptions_def)
  have d': "map (\<lambda>r. case r of HttpGet u \<Rightarrow> u | HttpPost u b \<Rightarrow> u)
        (fst (commandAction exampleExternals
                (exampleResponses \<lparr> pageResponse := Inr (None, False) \<rparr>) exampleOptions))
      = [pageUrl exampleExternals (webUrl exampleOptions) ''home.aspx'',
         checkoutUrl exampleExternals (webUrl exampleOptions) ''home.aspx'',
         webPartsUrl (webUrl exampleOptions),
         savepageUrl exampleExternals (webUrl exampleOptions) ''home.aspx'']"
    using d a n by simp
  show ?thesis using a b c d' unfolding u by (intro conjI)
qed

section \<open>Zero and empty option values\<close>

lemma truthy_simps: "truthy None = False" "truthy (Some 0) = False"
  by (simp_all add: truthy_def)

lemma placeWebPart_section0:
  "placeWebPart L (Some 0) c ord wp = placeWebPart L None c ord wp"
  by (simp add: placeWebPart_def resolveSection_def orElse_def)

lemma resolveColumn_column0:
  "resolveColumn L zone (Some 0)
     = (case resolveColumn L zone None of Inl e \<Rightarrow> Inl (InvalidColumn (Some 0)) | Inr a \<Rightarrow> Inr a)"
  by (simp add: resolveColumn_def orElse_def Let_def)

lemma placeWebPart_column0:
  "placeWebPart L s (Some 0) ord wp
     = (case placeWebPart L s None ord wp of
          Inl (InvalidColumn x) \<Rightarrow> Inl (InvalidColumn (Some 0))
        | r \<Rightarrow> r)"
proof (cases "resolveSection (ensureDefaultSection L) s")
  case (Inl e)
  then have "\<exists>n. e = InvalidSection n"
    by (auto simp: resolveSection_def Let_def split: if_splits)
  then show ?thesis using Inl by (auto simp: placeWebPart_def)
next
  case (Inr zone)
  show ?thesis
  proof (cases "resolveColumn (ensureDefaultSection L) zone None")
    case (Inl e)
    then have "e = InvalidColumn None"
      by (auto simp: resolveColumn_def Let_def split: if_splits)
    then show ?thesis using Inl Inr by (simp add: placeWebPart_def resolveColumn_column0)
  next
    case a: (Inr a)
    then show ?thesis using Inr
      by (simp add: placeWebPart_def resolveColumn_column0 orElse_def Let_def)
  qed
qed

text \<open>
  Claim C9. The value 0 of the options \<open>section\<close> and \<open>column\<close> is falsy, so validation
  answers as if the option were not given, and so does the editor: section 0 resolves
  like an unset section (to the last section when there is one), column 0 resolves to
  column 1. The only trace of the 0 is in the message of a rejected column, which quotes
  the option as given.
\<close>

theorem zero_is_unspecified:
  "validate ext (opts \<lparr> optSection := Some 0 \<rparr>) = validate ext (opts \<lparr> optSection := None \<rparr>)
   \<and> validate ext (opts \<lparr> optColumn := Some 0 \<rparr>) = validate ext (opts \<lparr> optColumn := None \<rparr>)
   \<and> resolveSection L (Some 0) = resolveSection L None
   \<and> (zoneIndices L \<noteq> [] \<longrightarrow> resolveSection L (Some 0) = Inr (Some (last (zoneIndices L))))
   \<and> placeWebPart L (Some 0) c ord wp = placeWebPart L None c ord wp
   \<and> orElse (Some 0) 1 = 1
   \<and> (resolveColumn L zone (Some 0) = Inr a \<longleftrightarrow> firstAt (inColumn zone 1) L a)
   \<and> (resolveColumn L zone (Some 0) = Inr a \<longleftrightarrow> resolveColumn L zone None = Inr a)
   \<and> placeWebPart L s (Some 0) ord wp
       = (case placeWebPart L s None ord wp of
            Inl (InvalidColumn x) \<Rightarrow> Inl (InvalidColumn (Some 0))
          | r \<Rightarrow> r)"
proof -
  have v1: "validate ext (opts \<lparr> optSection := Some 0 \<rparr>)
            = validate ext (opts \<lparr> optSection := None \<rparr>)"
    by (simp add: validate_def truthy_simps isNumber_def)
  have v2: "validate ext (opts \<lparr> optColumn := Some 0 \<rparr>)
            = validate ext (opts \<lparr> optColumn := None \<rparr>)"
    by (simp add: validate_def truthy_simps isNumber_def)
  have r1: "resolveSection L (Some 0) = resolveSection L None"
    by (simp add: resolveSection_def orElse_def)
  have r2: "zoneIndices L \<noteq> [] \<longrightarrow> resolveSection L (Some 0) = Inr (Some (last (zoneIndices L)))"
  proof
    assume h: "zoneIndices L \<noteq> []"
    then have "nat (int (length (zoneIndices L)) - 1) = length (zoneIndices L) - 1" by simp
    then have "zoneIndices L ! nat (int (length (zoneIndices L)) - 1) = last (zoneIndices L)"
      using h by (simp add: last_conv_nth)
    then show "resolveSection L (Some 0) = Inr (Some (last (zoneIndices L)))"
      using h by (simp add: resolveSection_unfold orElse_def jsNth_def)
  qed
  have o: "orElse (Some 0) 1 = 1" by (simp add: orElse_def)
  have c1: "resolveColumn L zone (Some 0) = Inr a \<longleftrightarrow> firstAt (inColumn zone 1) L a"
    using resolveColumn_Inr_iff [of L zone "Some 0" a] by (simp add: o)
  have c2: "resolveColumn L zone (Some 0) = Inr a \<longleftrightarrow> resolveColumn L zone None = Inr a"
    by (simp add: resolveColumn_column0 split: sum.splits)
  show ?thesis
    using v1 v2 r1 r2 placeWebPart_section0 [of L c ord wp] o c1 c2
      placeWebPart_column0 [of L s ord wp]
    by (intro conjI)
qed

theorem zero_is_unspecified_witness:
  "validate exampleExternals (exampleOptions \<lparr> optSection := Some 0 \<rparr>) = None
   \<and> validate exampleExternals (exampleOptions \<lparr> optColumn := Some 0 \<rparr>) = None
   \<and> validate exampleExternals (exampleOptions \<lparr> optSection := Some (- 1) \<rparr>)
       = Some ''The value of parameter section must be 1 or higher''
   \<and> zoneIndices (exampleControl None 3 1 1 # exampleControl None 1 1 1
        # defaultCanvasContent) \<noteq> []
   \<and> resolveSection (exampleControl None 3 1 1 # exampleControl None 1 1 1
        # defaultCanvasContent) (Some 0) = Inr (Some 3)"
proof -
  let ?L = "exampleControl None 3 1 1 # exampleControl None 1 1 1 # defaultCanvasContent"
  have n: "validate exampleExternals (exampleOptions \<lparr> optSection := None \<rparr>) = None"
    "validate exampleExternals (exampleOptions \<lparr> optColumn := None \<rparr>) = None"
    by (simp_all add: validate_def exampleOptions_def exampleExternals_def truthyStr_def
        truthy_def)
  have a: "validate exampleExternals (exampleOptions \<lparr> optSection := Some 0 \<rparr>) = None"
    using zero_is_unspecified [of exampleExternals exampleOptions ?L None None exampleWebPart
        "Some 1" 0 None] n(1)
    by simp
  have b: "validate exampleExternals (exampleOptions \<lparr> optColumn := Some 0 \<rparr>) = None"
    using zero_is_unspecified [of exampleExternals exampleOptions ?L None None exampleWebPart
        "Some 1" 0 None] n(2)
    by simp
  have m: "validate exampleExternals (exampleOptions \<lparr> optSection := Some (- 1) \<rparr>)
       = Some ''The value of parameter section must be 1 or higher''"
    by (simp add: validate_def exampleOptions_def exampleExternals_def truthyStr_def
        truthy_def isNumber_def)
  have z: "zoneIndices ?L = [1, 3]" by code_simp
  then have z': "zoneIndices ?L \<noteq> []" by simp
  have "zoneIndices ?L \<noteq> [] \<longrightarrow> resolveSection ?L (Some 0) = Inr (Some (last (zoneIndices ?L)))"
    using zero_is_unspecified [of exampleExternals exampleOptions ?L None None exampleWebPart
        "Some 1" 0 None]
    by blast
  then have r: "resolveSection ?L (Some 0) = Inr (Some 3)" using z by simp
  show ?thesis using a b m z' r by (intro conjI)
qed

section \<open>Malformed JSON options\<close>

lemma truthyStr_simps:
  "truthyStr None = False" "truthyStr (Some []) = False" "s \<noteq> [] \<Longrightarrow> truthyStr (Some s) = True"
  by (simp_all add: truthyStr_def)

lemma validate_properties_malformed:
  assumes "truthyStr (standardWebPart opts) \<noteq> truthyStr (optWebPartId opts)"
    and "truthyStr (optWebPartId opts) \<longrightarrow> isValidGuid ext (the (optWebPartId opts))"
    and "truthyStr (standardWebPart opts)
           \<longrightarrow> isValidStandardWebPartType ext (the (standardWebPart opts))"
    and "\<not> (truthyStr (webPartProperties opts) \<and> truthyStr (optWebPartData opts))"
    and "webPartProperties opts = Some s" and "s \<noteq> []" and "JSON_parse ext s = Inl m"
  shows "validate ext opts =
           Some (''Specified webPartProperties is not a valid JSON string. Input: ''
                 @ s @ ''. Error: '' @ m)"
proof -
  have t: "truthyStr (webPartProperties opts)" using assms(5,6) by (simp add: truthyStr_def)
  show ?thesis
    unfolding validate_def using assms(1-4) t assms(5,7)
    by (simp only: if_False if_True simp_thms option.sel sum.disc sum.sel split: if_split) auto
qed

lemma validate_data_malformed:
  assumes "truthyStr (standardWebPart opts) \<noteq> truthyStr (optWebPartId opts)"
    and "truthyStr (optWebPartId opts) \<longrightarrow> isValidGuid ext (the (optWebPartId opts))"
    and "truthyStr (standardWebPart opts)
           \<longrightarrow> isValidStandardWebPartType ext (the (standardWebPart opts))"
    and "\<not> (truthyStr (webPartProperties opts) \<and> truthyStr (optWebPartData opts))"
    and "optWebPartData opts = Some s" and "s \<noteq> []" and "JSON_parse ext s = Inl m"
  shows "validate ext opts =
           Some (''Specified webPartData is not a valid JSON string. Input: ''
                 @ s @ ''. Error: '' @ m)"
proof -
  have t: "truthyStr (optWebPartData opts)" using assms(5,6) by (simp add: truthyStr_def)
  then have n: "\<not> truthyStr (webPartProperties opts)" using assms(4) by simp
  show ?thesis
    unfolding validate_def using assms(1-3) t n assms(5,7)
    by (simp only: if_False if_True simp_thms option.sel sum.disc sum.sel split: if_split) auto
qed

lemma setWebPartProperties_data_malformed:
  assumes "optWebPartData opts = Some s" and "s \<noteq> []" and "JSON_parse ext s = Inl m"
  shows "setWebPartProperties ext wp opts = Inl (SyntaxError m)"
  using assms by (simp add: setWebPartProperties_def mergeProperties_def Let_def truthyStr_def)

lemma setWebPartProperties_properties_malformed:
  assumes "webPartProperties opts = Some s" and "JSON_parse ext s = Inl m"
  shows "setWebPartProperties ext wp opts
         = setWebPartProperties ext wp (opts \<lparr> webPartProperties := None \<rparr>)"
proof -
  have "mergeProperties ext wp opts = wp"
    using assms by (simp add: mergeProperties_def)
  moreover have "mergeProperties ext wp (opts \<lparr> webPartProperties := None \<rparr>) = wp"
    by (simp add: mergeProperties_def truthyStr_simps)
  ultimately show ?thesis
    by (simp add: setWebPartProperties_def)
qed

text \<open>
  Claim C8, as the code has it. When the options pass the checks that come first (exactly
  one of \<open>standardWebPart\<close> and \<open>webPartId\<close>, valid, and not both \<open>webPartProperties\<close>
  and \<open>webPartData\<close>), a non-empty \<open>webPartProperties\<close> or \<open>webPartData\<close> text that
  \<open>JSON.parse\<close> rejects makes \<open>validate\<close> return a message that quotes the text and
  the parser's error. Inside \<open>commandAction\<close>, a rejected \<open>webPartData\<close> text ends the
  invocation with the parser's error and no save request, while a rejected
  \<open>webPartProperties\<close> text is skipped as if the option were not given. An empty text
  is treated as an option that was not given, by \<open>validate\<close> and by
  \<open>setWebPartProperties\<close>.
\<close>

theorem malformed_json_reported:
  "(truthyStr (standardWebPart opts) \<noteq> truthyStr (optWebPartId opts)
      \<and> (truthyStr (optWebPartId opts) \<longrightarrow> isValidGuid ext (the (optWebPartId opts)))
      \<and> (truthyStr (standardWebPart opts)
           \<longrightarrow> isValidStandardWebPartType ext (the (standardWebPart opts)))
      \<and> \<not> (truthyStr (webPartProperties opts) \<and> truthyStr (optWebPartData opts))
      \<and> s \<noteq> [] \<and> JSON_parse ext s = Inl m
    \<longrightarrow> (webPartProperties opts = Some s
          \<longrightarrow> validate ext opts =
                Some (''Specified webPartProperties is not a valid JSON string. Input: ''
                      @ s @ ''. Error: '' @ m))
        \<and> (optWebPartData opts = Some s
          \<longrightarrow> validate ext opts =
                Some (''Specified webPartData is not a valid JSON string. Input: ''
                      @ s @ ''. Error: '' @ m)))
   \<and> (optWebPartData opts = Some s \<and> s \<noteq> [] \<and> JSON_parse ext s = Inl m
        \<longrightarrow> setWebPartProperties ext wp opts = Inl (SyntaxError m)
            \<and> editAndSave ext env opts L wp = ([], Inl (SyntaxError m)))
   \<and> (webPartProperties opts = Some s \<and> JSON_parse ext s = Inl m
        \<longrightarrow> setWebPartProperties ext wp opts
              = setWebPartProperties ext wp (opts \<lparr> webPartProperties := None \<rparr>))
   \<and> validate ext (opts \<lparr> webPartProperties := Some [] \<rparr>)
       = validate ext (opts \<lparr> webPartProperties := None \<rparr>)
   \<and> validate ext (opts \<lparr> optWebPartData := Some [] \<rparr>)
       = validate ext (opts \<lparr> optWebPartData := None \<rparr>)
   \<and> setWebPartProperties ext wp (opts \<lparr> webPartProperties := Some [] \<rparr>)
       = setWebPartProperties ext wp (opts \<lparr> webPartProperties := None \<rparr>)
   \<and> setWebPartProperties ext wp (opts \<lparr> optWebPartData := Some [] \<rparr>)
       = setWebPartProperties ext wp (opts \<lparr> optWebPartData := None \<rparr>)"
proof -
  have a: "truthyStr (standardWebPart opts) \<noteq> truthyStr (optWebPartId opts)
      \<and> (truthyStr (optWebPartId opts) \<longrightarrow> isValidGuid ext (the (optWebPartId opts)))
      \<and> (truthyStr (standardWebPart opts)
           \<longrightarrow> isValidStandardWebPartType ext (the (standardWebPart opts)))
      \<and> \<not> (truthyStr (webPartProperties opts) \<and> truthyStr (optWebPartData opts))
      \<and> s \<noteq> [] \<and> JSON_parse ext s = Inl m
    \<longrightarrow> (webPartProperties opts = Some s
          \<longrightarrow> validate ext opts =
                Some (''Specified webPartProperties is not a valid JSON string. Input: ''
                      @ s @ ''. Error: '' @ m))
        \<and> (optWebPartData opts = Some s
          \<longrightarrow> validate ext opts =
                Some (''Specified webPartData is not a valid JSON string. Input: ''
                      @ s @ ''. Error: '' @ m))"
    using validate_properties_malformed [of opts ext s m]
      validate_data_malformed [of opts ext s m]
    by blast
  have b: "optWebPartData opts = Some s \<and> s \<noteq> [] \<and> JSON_parse ext s = Inl m
        \<longrightarrow> setWebPartProperties ext wp opts = Inl (SyntaxError m)
            \<and> editAndSave ext env opts L wp = ([], Inl (SyntaxError m))"
  proof
    assume "optWebPartData opts = Some s \<and> s \<noteq> [] \<and> JSON_parse ext s = Inl m"
    then have "setWebPartProperties ext wp opts = Inl (SyntaxError m)"
      using setWebPartProperties_data_malformed [of opts s ext m wp] by blast
    then show "setWebPartProperties ext wp opts = Inl (SyntaxError m)
            \<and> editAndSave ext env opts L wp = ([], Inl (SyntaxError m))"
      by (simp add: editAndSave_def)
  qed
  have c: "webPartProperties opts = Some s \<and> JSON_parse ext s = Inl m
        \<longrightarrow> setWebPartProperties ext wp opts
              = setWebPartProperties ext wp (opts \<lparr> webPartProperties := None \<rparr>)"
    using setWebPartProperties_properties_malformed [of opts s ext m wp] by blast
  have d: "validate ext (opts \<lparr> webPartProperties := Some [] \<rparr>)
       = validate ext (opts \<lparr> webPartProperties := None \<rparr>)"
    by (simp add: validate_def truthyStr_simps isNumber_def)
  have e: "validate ext (opts \<lparr> optWebPartData := Some [] \<rparr>)
       = validate ext (opts \<lparr> optWebPartData := None \<rparr>)"
    by (simp add: validate_def truthyStr_simps isNumber_def)
  have f: "setWebPartProperties ext wp (opts \<lparr> webPartProperties := Some [] \<rparr>)
       = setWebPartProperties ext wp (opts \<lparr> webPartProperties := None \<rparr>)"
    by (simp add: setWebPartProperties_def mergeProperties_def truthyStr_simps)
  have g: "setWebPartProperties ext wp (opts \<lparr> optWebPartData := Some [] \<rparr>)
       = setWebPartProperties ext wp (opts \<lparr> optWebPartData := None \<rparr>)"
    by (simp add: setWebPartProperties_def mergeProperties_def truthyStr_simps)
  show ?thesis using a b c d e f g by (intro conjI)
qed

text \<open>The text \<open>{\<close> is rejected by the parser of the examples: as \<open>webPartProperties\<close> or
  as \<open>webPartData\<close> it fails validation with the message for that option, and as
  \<open>webPartData\<close> it ends the last callback with the parser's error and without a save
  request; as \<open>webPartProperties\<close> it leaves the web part as it was.\<close>

theorem malformed_json_reported_witness:
  "JSON_parse exampleExternals ''{'' = Inl ''SyntaxError: Unexpected end of JSON input''
   \<and> validate exampleExternals (exampleOptions \<lparr> webPartProperties := Some ''{'' \<rparr>)
       = Some (''Specified webPartProperties is not a valid JSON string. Input: ''
               @ ''{'' @ ''. Error: '' @ ''SyntaxError: Unexpected end of JSON input'')
   \<and> validate exampleExternals (exampleOptions \<lparr> optWebPartData := Some ''{'' \<rparr>)
       = Some (''Specified webPartData is not a valid JSON string. Input: ''
               @ ''{'' @ ''. Error: '' @ ''SyntaxError: Unexpected end of JSON input'')
   \<and> editAndSave exampleExternals exampleResponses
         (exampleOptions \<lparr> optWebPartData := Some ''{'' \<rparr>) defaultCanvasContent exampleWebPart
       = ([], Inl (SyntaxError ''SyntaxError: Unexpected end of JSON input''))
   \<and> setWebPartProperties exampleExternals exampleWebPart
         (exampleOptions \<lparr> webPartProperties := Some ''{'' \<rparr>)
       = Inr exampleWebPart"
proof -
  let ?m = "''SyntaxError: Unexpected end of JSON input''"
  let ?p = "exampleOptions \<lparr> webPartProperties := Some ''{'' \<rparr>"
  let ?d = "exampleOptions \<lparr> optWebPartData := Some ''{'' \<rparr>"
  have j: "JSON_parse exampleExternals ''{'' = Inl ?m" by (simp add: exampleExternals_def)
  have ne: "''{'' \<noteq> []" by simp
  have hp: "truthyStr (standardWebPart ?p) \<noteq> truthyStr (optWebPartId ?p)
      \<and> (truthyStr (optWebPartId ?p) \<longrightarrow> isValidGuid exampleExternals (the (optWebPartId ?p)))
      \<and> (truthyStr (standardWebPart ?p)
           \<longrightarrow> isValidStandardWebPartType exampleExternals (the (standardWebPart ?p)))
      \<and> \<not> (truthyStr (webPartProperties ?p) \<and> truthyStr (optWebPartData ?p))"
    by (simp add: exampleOptions_def exampleExternals_def truthyStr_def)
  have hd: "truthyStr (standardWebPart ?d) \<noteq> truthyStr (optWebPartId ?d)
      \<and> (truthyStr (optWebPartId ?d) \<longrightarrow> isValidGuid exampleExternals (the (optWebPartId ?d)))
      \<and> (truthyStr (standardWebPart ?d)
           \<longrightarrow> isValidStandardWebPartType exampleExternals (the (standardWebPart ?d)))
      \<and> \<not> (truthyStr (webPartProperties ?d) \<and> truthyStr (optWebPartData ?d))"
    by (simp add: exampleOptions_def exampleExternals_def truthyStr_def)
  have wp: "webPartProperties ?p = Some ''{''" by simp
  have wd: "optWebPartData ?d = Some ''{''" by simp
  have a: "validate exampleExternals ?p
       = Some (''Specified webPartProperties is not a valid JSON string. Input: ''
               @ ''{'' @ ''. Error: '' @ ?m)"
    using malformed_json_reported [of ?p exampleExternals "''{''" ?m exampleWebPart
        exampleResponses defaultCanvasContent] hp ne j wp
    by blast
  have b: "validate exampleExternals ?d
       = Some (''Specified webPartData is not a valid JSON string. Input: ''
               @ ''{'' @ ''. Error: '' @ ?m)"
    using malformed_json_reported [of ?d exampleExternals "''{''" ?m exampleWebPart
        exampleResponses defaultCanvasContent] hd ne j wd
    by blast
  have c: "editAndSave exampleExternals exampleResponses ?d defaultCanvasContent exampleWebPart
       = ([], Inl (SyntaxError ?m))"
    using malformed_json_reported [of ?d exampleExternals "''{''" ?m exampleWebPart
        exampleResponses defaultCanvasContent] ne j wd
    by blast
  have "setWebPartProperties exampleExternals exampleWebPart ?p
        = setWebPartProperties exampleExternals exampleWebPart
            (?p \<lparr> webPartProperties := None \<rparr>)"
    using malformed_json_reported [of ?p exampleExternals "''{''" ?m exampleWebPart
        exampleResponses defaultCanvasContent] j wp
    by blast
  then have d: "setWebPartProperties exampleExternals exampleWebPart ?p = Inr exampleWebPart"
    by (simp add: setWebPartProperties_def mergeProperties_def exampleOptions_def truthyStr_def)
  show ?thesis using j a b c d by (intro conjI)
qed

text \<open>
  The claim as stated fails for the empty text, which \<open>JSON.parse\<close> rejects: given as
  \<open>webPartProperties\<close> (or as \<open>webPartData\<close>) it passes validation, and the invocation
  succeeds and saves the layout with the web part as the catalog resolved it.
\<close>

theorem empty_json_text_counterexample:
  "isl (JSON_parse exampleExternals [])
   \<and> validate exampleExternals (exampleOptions \<lparr> webPartProperties := Some [] \<rparr>) = None
   \<and> commandAction exampleExternals exampleResponses
         (exampleOptions \<lparr> webPartProperties := Some [] \<rparr>)
       = ([HttpGet (pageUrl exampleExternals (webUrl exampleOptions) ''home.aspx''),
           HttpGet (webPartsUrl (webUrl exampleOptions)),
           HttpPost (savepageUrl exampleExternals (webUrl exampleOptions) ''home.aspx'')
             (Some [setControlIndex 1 (webPartControl defaultSection exampleWebPart),
                    hd defaultCanvasContent])],
          Inr ())
   \<and> validate exampleExternals (exampleOptions \<lparr> optWebPartData := Some [] \<rparr>) = None
   \<and> snd (commandAction exampleExternals exampleResponses
              (exampleOptions \<lparr> optWebPartData := Some [] \<rparr>)) = Inr ()"
proof -
  have m: "defaultCanvasContent = [hd defaultCanvasContent]"
    "position (hd defaultCanvasContent) = None"
    by (simp_all add: defaultCanvasContent_def)
  have pw: "placeWebPart defaultCanvasContent None None None exampleWebPart
            = Inr [setControlIndex 1 (webPartControl defaultSection exampleWebPart),
                   hd defaultCanvasContent]"
    using placeWebPart_single [OF m(2), of exampleWebPart] m(1) by simp
  have n: "pageFullName ''home'' = ''home.aspx''"
    by (simp add: pageFullName_def strIndexOf_def prefix_code)
  have a: "isl (JSON_parse exampleExternals [])" by (simp add: exampleExternals_def)
  have b: "validate exampleExternals (exampleOptions \<lparr> webPartProperties := Some [] \<rparr>) = None"
    by (simp add: validate_def exampleOptions_def exampleExternals_def truthyStr_def truthy_def)
  have c: "commandAction exampleExternals exampleResponses
         (exampleOptions \<lparr> webPartProperties := Some [] \<rparr>)
       = ([HttpGet (pageUrl exampleExternals (webUrl exampleOptions) ''home.aspx''),
           HttpGet (webPartsUrl (webUrl exampleOptions)),
           HttpPost (savepageUrl exampleExternals (webUrl exampleOptions) ''home.aspx'')
             (Some [setControlIndex 1 (webPartControl defaultSection exampleWebPart),
                    hd defaultCanvasContent])],
          Inr ())"
    by (simp add: commandAction_def parseLayout_def resolveWebPart_def editAndSave_def
        setWebPartProperties_def mergeProperties_def exampleResponses_def exampleOptions_def truthyStr_def pw n)
  have d: "validate exampleExternals (exampleOptions \<lparr> optWebPartData := Some [] \<rparr>) = None"
    by (simp add: validate_def exampleOptions_def exampleExternals_def truthyStr_def truthy_def)
  have e: "snd (commandAction exampleExternals exampleResponses
              (exampleOptions \<lparr> optWebPartData := Some [] \<rparr>)) = Inr ()"
    by (simp add: commandAction_def parseLayout_def resolveWebPart_def editAndSave_def
        setWebPartProperties_def mergeProperties_def exampleResponses_def exampleOptions_def truthyStr_def pw n)
  show ?thesis using a b c d e by (intro conjI)
qed

end
